theory Spec2Isabelle
  imports Complex_Main "HOL-Library.Char_ord" "HOL-Library.List_Lexorder"
    "HOL-Library.Product_Lexorder" "HOL-Library.Multiset" "HOL-Library.Log_Nat"
begin

section \<open>The telemetry collector \<open>scripts/sysmon-update.py\<close>\<close>

text \<open>
  The collector reads three external sources (the Pi-hole HTTP API, the host's metrics and
  the container runtime) and writes one JSON document. Everything outside the script is a
  field of the record \<open>world\<close>: the outcome of each library call is either an exception or
  a value. Python strings are lists of 8-bit characters (code points below 256). A
  Python float is a rational: a double is represented by its exact value, and the result
  of \<open>round(x, nd)\<close> by the decimal with \<open>nd\<close> places that it is printed as. An
  exception is represented by its message \<open>str(e)\<close>; only exceptions of class
  \<open>Exception\<close> are considered.
\<close>

subsection \<open>Python values\<close>

datatype exn = Exception string

datatype json =
    JNull
  | JBool bool
  | JInt int
  | JFloat rat
  | JStr string
  | JArr "json list"
  | JObj "(string \<times> json) list"

type_synonym dict = "(string \<times> json) list"

definition quoted :: "string \<Rightarrow> string" where
  "quoted s = CHR 0x27 # s @ [CHR 0x27]"

fun type_name :: "json \<Rightarrow> string" where
  "type_name JNull = ''NoneType''"
| "type_name (JBool _) = ''bool''"
| "type_name (JInt _) = ''int''"
| "type_name (JFloat _) = ''float''"
| "type_name (JStr _) = ''str''"
| "type_name (JArr _) = ''list''"
| "type_name (JObj _) = ''dict''"

text \<open>\<open>x[key]\<close> with a string key: a dict looks the key up and raises KeyError when it is
  absent; every other JSON value raises TypeError.\<close>

fun subscript :: "json \<Rightarrow> string \<Rightarrow> exn + json" where
  "subscript (JObj kvs) k =
     (case map_of kvs k of Some v \<Rightarrow> Inr v | None \<Rightarrow> Inl (Exception (quoted k)))"
| "subscript (JArr _) k = Inl (Exception ''list indices must be integers or slices, not str'')"
| "subscript (JStr _) k = Inl (Exception (''string indices must be integers, not '' @ quoted ''str''))"
| "subscript v k = Inl (Exception (quoted (type_name v) @ '' object is not subscriptable''))"

text \<open>\<open>x.get(key, default)\<close>: only a dict has the method.\<close>

fun dict_get :: "json \<Rightarrow> string \<Rightarrow> json \<Rightarrow> exn + json" where
  "dict_get (JObj kvs) k dflt = Inr (case map_of kvs k of Some v \<Rightarrow> v | None \<Rightarrow> dflt)"
| "dict_get v k dflt =
     Inl (Exception (quoted (type_name v) @ '' object has no attribute '' @ quoted ''get''))"

text \<open>\<open>d[key] = v\<close> on an insertion-ordered dict.\<close>

fun dict_set :: "dict \<Rightarrow> string \<Rightarrow> json \<Rightarrow> dict" where
  "dict_set [] k v = [(k, v)]"
| "dict_set ((k', v') # kvs) k v =
     (if k' = k then (k, v) # kvs else (k', v') # dict_set kvs k v)"

text \<open>Truth value of an object, as \<open>if sid\<close> tests it.\<close>

fun truthy :: "json \<Rightarrow> bool" where
  "truthy JNull = False"
| "truthy (JBool b) = b"
| "truthy (JInt i) = (i \<noteq> 0)"
| "truthy (JFloat r) = (r \<noteq> 0)"
| "truthy (JStr s) = (s \<noteq> [])"
| "truthy (JArr xs) = (xs \<noteq> [])"
| "truthy (JObj kvs) = (kvs \<noteq> [])"

text \<open>\<open>round(x, nd)\<close> on a float, ties to even, computed on the exact rational.\<close>

definition round_half_even :: "rat \<Rightarrow> int" where
  "round_half_even y =
     (let f = \<lfloor>y\<rfloor>; d = y - of_int f
      in if d < 1 / 2 then f
         else if 1 / 2 < d then f + 1
         else if even f then f else f + 1)"

definition py_round :: "rat \<Rightarrow> nat \<Rightarrow> rat" where
  "py_round x nd = of_int (round_half_even (x * 10 ^ nd)) / 10 ^ nd"

fun round_json :: "json \<Rightarrow> nat \<Rightarrow> exn + json" where
  "round_json (JInt i) nd = Inr (JInt i)"
| "round_json (JBool b) nd = Inr (JInt (if b then 1 else 0))"
| "round_json (JFloat r) nd = Inr (JFloat (py_round r nd))"
| "round_json v nd =
     Inl (Exception (''type '' @ type_name v @ '' doesn'' @ [CHR 0x27] @ ''t define __round__ method''))"

text \<open>Binary64 arithmetic. For positive \<open>x\<close>, \<open>exponent x\<close> is the \<open>e\<close> with
  \<open>2 powi e \<le> x < 2 powi (e + 1)\<close>, and \<open>double_of x\<close> is the double nearest to \<open>x\<close>,
  ties to the even significand of 53 bits; it is used on magnitudes of the normal range
  only. \<open>int_to_float\<close> is the conversion Python applies to the int operand of a float
  division, which raises OverflowError from \<open>2 ^ 1024 - 2 ^ 970\<close> on; \<open>float_div\<close>
  divides two doubles.\<close>

definition exponent :: "rat \<Rightarrow> int" where
  "exponent x =
     (if 1 \<le> x then bitlen \<lfloor>x\<rfloor> - 1
      else (let k = bitlen \<lfloor>1 / x\<rfloor> - 1
            in if x = 2 powi (- k) then - k else - k - 1))"

definition double_pos :: "rat \<Rightarrow> rat" where
  "double_pos x =
     of_int (round_half_even (x / 2 powi (exponent x - 52))) * 2 powi (exponent x - 52)"

definition double_of :: "rat \<Rightarrow> rat" where
  "double_of x = (if x = 0 then 0 else if 0 < x then double_pos x else - double_pos (- x))"

definition int_to_float :: "int \<Rightarrow> exn + rat" where
  "int_to_float n =
     (if \<bar>n\<bar> < 2 ^ 1024 - 2 ^ 970 then Inr (double_of (of_int n))
      else Inl (Exception ''int too large to convert to float''))"

definition float_div :: "rat \<Rightarrow> rat \<Rightarrow> rat" where
  "float_div x y = double_of (x / y)"

text \<open>Float floor division and remainder for a positive divisor, and \<open>str\<close> of an int.\<close>

definition floordiv :: "rat \<Rightarrow> rat \<Rightarrow> int" where
  "floordiv x y = \<lfloor>x / y\<rfloor>"

definition fmod :: "rat \<Rightarrow> rat \<Rightarrow> rat" where
  "fmod x y = x - y * of_int \<lfloor>x / y\<rfloor>"

fun str_nat :: "nat \<Rightarrow> string" where
  "str_nat n = (if n < 10 then [char_of (48 + n)] else str_nat (n div 10) @ [char_of (48 + n mod 10)])"

declare str_nat.simps [simp del]

definition str_int :: "int \<Rightarrow> string" where
  "str_int i = (if i < 0 then CHR ''-'' # str_nat (nat (- i)) else str_nat (nat i))"

subsection \<open>Python string methods\<close>

definition isspace :: "char \<Rightarrow> bool" where
  "isspace c = (let n = (of_char c :: nat) in
     (9 \<le> n \<and> n \<le> 13) \<or> (28 \<le> n \<and> n \<le> 32) \<or> n = 133 \<or> n = 160)"

definition strip :: "string \<Rightarrow> string" where
  "strip s = rev (dropWhile isspace (rev (dropWhile isspace s)))"

definition is_linebreak :: "char \<Rightarrow> bool" where
  "is_linebreak c = (let n = (of_char c :: nat) in
     (10 \<le> n \<and> n \<le> 13) \<or> (28 \<le> n \<and> n \<le> 30) \<or> n = 133)"

fun splitlines_from :: "string \<Rightarrow> string \<Rightarrow> string list" where
  "splitlines_from cur [] = (if cur = [] then [] else [cur])"
| "splitlines_from cur (c # cs) =
     (if is_linebreak c then
        (case cs of
           d # ds \<Rightarrow>
             if c = CHR 0x0D \<and> d = CHR 0x0A then cur # splitlines_from [] ds
             else cur # splitlines_from [] cs
         | [] \<Rightarrow> cur # splitlines_from [] cs)
      else splitlines_from (cur @ [c]) cs)"

definition splitlines :: "string \<Rightarrow> string list" where
  "splitlines s = splitlines_from [] s"

text \<open>\<open>s.split(sep, 1)\<close>: the part before the first separator and, when there is one, the
  rest (\<open>parts[0]\<close> and \<open>parts[1]\<close>).\<close>

definition split1 :: "char \<Rightarrow> string \<Rightarrow> string \<times> string option" where
  "split1 sep s =
     (case dropWhile (\<lambda>c. c \<noteq> sep) s of
        [] \<Rightarrow> (s, None)
      | _ # rest \<Rightarrow> (takeWhile (\<lambda>c. c \<noteq> sep) s, Some rest))"

definition lower_char :: "char \<Rightarrow> char" where
  "lower_char c = (let n = (of_char c :: nat) in
     if (65 \<le> n \<and> n \<le> 90) \<or> (192 \<le> n \<and> n \<le> 222 \<and> n \<noteq> 215)
     then char_of (n + 32) else c)"

definition lower :: "string \<Rightarrow> string" where
  "lower s = map lower_char s"

definition startswith :: "string \<Rightarrow> string \<Rightarrow> bool" where
  "startswith s p = (take (length p) s = p)"

subsection \<open>The world outside the script\<close>

record response =
  raise_for_status :: "exn option"
  json_body :: "exn + json"

datatype zone = NoFile | Unreadable exn | Reading int

datatype http_call = POST_auth | GET_summary json | DELETE_auth json

datatype fs_op = Open_w string | Write string string | Close string

record world =
  has_requests :: bool
  has_psutil :: bool
  post_auth :: "exn + response"
  get_summary :: "json \<Rightarrow> exn + response"
  delete_auth :: "json \<Rightarrow> exn option"
  cpu_percent :: "exn + rat"
  virtual_memory :: "exn + rat \<times> int \<times> int"
  disk_usage :: "exn + rat \<times> int \<times> int"
  getloadavg :: "exn + rat \<times> rat \<times> rat"
  boot_time :: "exn + rat"
  now_timestamp :: rat
  proc_loadavg :: "exn + string list"
  proc_uptime :: "exn + string list"
  py_float :: "string \<Rightarrow> exn + rat"
  thermal_zone :: "nat \<Rightarrow> zone"
  docker_ps :: "exn + string"
  strftime_now :: string
  output_file :: string
  open_output :: "exn option"
  json_dump :: "dict \<Rightarrow> string list"

text \<open>
  \<^item> \<open>post_auth\<close>, \<open>get_summary sid\<close>, \<open>delete_auth sid\<close>: what \<open>requests.post\<close>,
    \<open>requests.get\<close> and \<open>requests.delete\<close> do (raise, or return a response) when called
    with the header \<open>sid\<close>; \<open>raise_for_status\<close> and \<open>json_body\<close> are the response's
    methods \<open>raise_for_status()\<close> and \<open>json()\<close>.
  \<^item> \<open>cpu_percent\<close> to \<open>boot_time\<close>: the psutil calls; a memory or disk result is
    \<open>(percent, used, total)\<close>.
  \<^item> \<open>proc_loadavg\<close>, \<open>proc_uptime\<close>: \<open>open(path).read().split()\<close> of the pseudo-file;
    \<open>py_float\<close> is the builtin \<open>float\<close>.
  \<^item> \<open>thermal_zone z\<close>: no file, a file whose reading raises, or a file holding an integer.
  \<^item> \<open>docker_ps\<close>: \<open>subprocess.check_output([...], timeout=10).decode()\<close>.
  \<^item> \<open>strftime_now\<close>: the shifted clock formatted with \<open>%-I:%M %p\<close>.
  \<^item> \<open>open_output\<close>: whether \<open>open(OUTPUT_FILE, "w")\<close> raises; \<open>json_dump data\<close>: the
    strings \<open>json.dump(data, f, indent=2)\<close> writes to \<open>f\<close>, in order.
\<close>

subsection \<open>\<open>get_pihole_stats\<close>\<close>

definition login :: "world \<Rightarrow> exn + json" where
  "login w =
     (case post_auth w of
        Inl e \<Rightarrow> Inl e
      | Inr r \<Rightarrow>
          (case raise_for_status r of
             Some e \<Rightarrow> Inl e
           | None \<Rightarrow>
               (case json_body r of
                  Inl e \<Rightarrow> Inl e
                | Inr j \<Rightarrow>
                    (case subscript j ''session'' of
                       Inl e \<Rightarrow> Inl e
                     | Inr s \<Rightarrow> subscript s ''sid''))))"

definition and_then :: "exn + 'a \<Rightarrow> ('a \<Rightarrow> exn + 'b) \<Rightarrow> exn + 'b" where
  "and_then m f = (case m of Inl e \<Rightarrow> Inl e | Inr x \<Rightarrow> f x)"

definition summary_counters :: "json \<Rightarrow> exn + dict" where
  "summary_counters s =
     and_then (dict_get s ''queries'' (JObj [])) (\<lambda>q.
     and_then (dict_get s ''gravity'' (JObj [])) (\<lambda>g.
     and_then (dict_get s ''clients'' (JObj [])) (\<lambda>cli.
     and_then (dict_get q ''total'' (JInt 0)) (\<lambda>total.
     and_then (dict_get q ''blocked'' (JInt 0)) (\<lambda>blocked.
     and_then (dict_get q ''percent_blocked'' (JFloat 0)) (\<lambda>pb.
     and_then (round_json pb 2) (\<lambda>pct.
     and_then (dict_get g ''domains_being_blocked'' (JInt 0)) (\<lambda>domains.
     and_then (dict_get q ''forwarded'' (JInt 0)) (\<lambda>forwarded.
     and_then (dict_get q ''cached'' (JInt 0)) (\<lambda>cached.
     and_then (dict_get cli ''active'' (JInt 0)) (\<lambda>active.
       Inr [(''queries_today'', total),
            (''ads_blocked_today'', blocked),
            (''ads_percentage_today'', pct),
            (''domains_being_blocked'', domains),
            (''queries_forwarded'', forwarded),
            (''queries_cached'', cached),
            (''unique_clients'', active)])))))))))))"

definition fetch_summary :: "world \<Rightarrow> json \<Rightarrow> exn + dict" where
  "fetch_summary w sid =
     and_then (get_summary w sid) (\<lambda>r. and_then (json_body r) summary_counters)"

text \<open>The \<open>finally\<close> block: the calls it makes. An exception of the DELETE is caught and
  dropped.\<close>

definition logout :: "world \<Rightarrow> json \<Rightarrow> http_call list" where
  "logout w sid =
     (if truthy sid \<and> has_requests w then
        (case delete_auth w sid of
           Some e \<Rightarrow> [DELETE_auth sid]
         | None \<Rightarrow> [DELETE_auth sid])
      else [])"

text \<open>The result is the returned mapping together with the HTTP calls made, in order.\<close>

definition get_pihole_stats :: "world \<Rightarrow> dict \<times> http_call list" where
  "get_pihole_stats w =
     (if \<not> has_requests w then ([], [])
      else
        (case login w of
           Inl (Exception msg) \<Rightarrow> ([(''error'', JStr msg)], [POST_auth] @ logout w JNull)
         | Inr sid \<Rightarrow>
             (case fetch_summary w sid of
                Inr counters \<Rightarrow> (counters, [POST_auth, GET_summary sid] @ logout w sid)
              | Inl (Exception msg) \<Rightarrow>
                  ([(''error'', JStr msg)], [POST_auth, GET_summary sid] @ logout w sid))))"

subsection \<open>\<open>get_server_stats\<close>\<close>

definition uptime_rich :: "rat \<Rightarrow> string" where
  "uptime_rich up_secs =
     (let days = floordiv up_secs 86400;
          hours = floordiv (fmod up_secs 86400) 3600;
          mins = floordiv (fmod up_secs 3600) 60
      in if days > 0 then str_int days @ ''d '' @ str_int hours @ ''h''
         else str_int hours @ ''h '' @ str_int mins @ ''m'')"

definition uptime_fallback :: "rat \<Rightarrow> string" where
  "uptime_fallback up_secs =
     (let days = floordiv up_secs 86400;
          hours = floordiv (fmod up_secs 86400) 3600
      in str_int days @ ''d '' @ str_int hours @ ''h'')"

text \<open>The uptime as the specification words it: whole days, the hours of the last day and
  the minutes of the last hour, of the whole seconds elapsed.\<close>

definition whole_seconds :: "rat \<Rightarrow> nat" where
  "whole_seconds up = nat \<lfloor>up\<rfloor>"

definition uptime_days :: "rat \<Rightarrow> nat" where
  "uptime_days up = whole_seconds up div 86400"

definition uptime_hours :: "rat \<Rightarrow> nat" where
  "uptime_hours up = whole_seconds up div 3600 mod 24"

definition uptime_minutes :: "rat \<Rightarrow> nat" where
  "uptime_minutes up = whole_seconds up div 60 mod 60"

text \<open>The branch taken when psutil was imported. No statement of it is inside a \<open>try\<close>.\<close>

definition psutil_stats :: "world \<Rightarrow> dict \<Rightarrow> exn + dict" where
  "psutil_stats w stats =
     and_then (cpu_percent w) (\<lambda>cpu.
     and_then (virtual_memory w) (\<lambda>(vm_percent, vm_used, vm_total).
     and_then (disk_usage w) (\<lambda>(du_percent, du_used, du_total).
     and_then (getloadavg w) (\<lambda>(la0, la1, la2).
     and_then (boot_time w) (\<lambda>bt.
       Inr (dict_set (dict_set (dict_set (dict_set (dict_set (dict_set (dict_set (dict_set
             (dict_set (dict_set stats
               ''cpu_pct'' (JFloat (py_round cpu 1)))
               ''mem_pct'' (JFloat (py_round vm_percent 1)))
               ''mem_used'' (JInt vm_used))
               ''mem_total'' (JInt vm_total))
               ''disk_pct'' (JFloat (py_round du_percent 1)))
               ''disk_used'' (JInt du_used))
               ''disk_total'' (JInt du_total))
               ''load_1'' (JFloat (py_round la0 2)))
               ''load_5'' (JFloat (py_round la1 2)))
               ''uptime_str'' (JStr (uptime_rich (now_timestamp w - bt)))))))))"

text \<open>The \<open>/proc\<close> branch: two \<open>try\<close> blocks, each dropping its exception. An assignment
  made before the exception stays.\<close>

definition proc_load :: "world \<Rightarrow> dict \<Rightarrow> dict" where
  "proc_load w stats =
     (case proc_loadavg w of
        Inl e \<Rightarrow> stats
      | Inr parts \<Rightarrow>
          (case parts of
             [] \<Rightarrow> stats
           | p0 # ps \<Rightarrow>
               (case py_float w p0 of
                  Inl e \<Rightarrow> stats
                | Inr l1 \<Rightarrow>
                    (let stats1 = dict_set stats ''load_1'' (JFloat l1)
                     in case ps of
                          [] \<Rightarrow> stats1
                        | p1 # _ \<Rightarrow>
                            (case py_float w p1 of
                               Inl e \<Rightarrow> stats1
                             | Inr l5 \<Rightarrow> dict_set stats1 ''load_5'' (JFloat l5))))))"

definition proc_up :: "world \<Rightarrow> dict \<Rightarrow> dict" where
  "proc_up w stats =
     (case proc_uptime w of
        Inl e \<Rightarrow> stats
      | Inr parts \<Rightarrow>
          (case parts of
             [] \<Rightarrow> stats
           | p0 # _ \<Rightarrow>
               (case py_float w p0 of
                  Inl e \<Rightarrow> stats
                | Inr up_secs \<Rightarrow> dict_set stats ''uptime_str'' (JStr (uptime_fallback up_secs)))))"

text \<open>The loop over \<open>range(10)\<close>, from the zones still to visit. \<open>temp\<close> is the double
  \<open>int(...) / 1000.0\<close>. The loop returns the rounded reading that ended it (if any), the
  exception that ended it (if any), and the zones whose path it tested, in order.\<close>

fun probe_zones :: "(nat \<Rightarrow> zone) \<Rightarrow> nat list \<Rightarrow> (exn + rat option) \<times> nat list" where
  "probe_zones tz [] = (Inr None, [])"
| "probe_zones tz (z # zs) =
     (case tz z of
        NoFile \<Rightarrow> (case probe_zones tz zs of (r, probed) \<Rightarrow> (r, z # probed))
      | Unreadable e \<Rightarrow> (Inl e, [z])
      | Reading n \<Rightarrow>
          (case int_to_float n of
             Inl e \<Rightarrow> (Inl e, [z])
           | Inr f \<Rightarrow>
               (let temp = float_div f 1000
                in if 10 < temp \<and> temp < 120 then (Inr (Some (py_round temp 1)), [z])
                   else (case probe_zones tz zs of (r, probed) \<Rightarrow> (r, z # probed)))))"

definition temperature :: "world \<Rightarrow> dict \<Rightarrow> dict \<times> nat list" where
  "temperature w stats =
     (case probe_zones (thermal_zone w) [0..<10] of
        (Inr (Some t), probed) \<Rightarrow> (dict_set stats ''temp_c'' (JFloat t), probed)
      | (Inr None, probed) \<Rightarrow> (stats, probed)
      | (Inl e, probed) \<Rightarrow> (stats, probed))"

text \<open>The result is the returned mapping with the thermal zones probed, or the exception
  that leaves the function.\<close>

definition get_server_stats :: "world \<Rightarrow> exn + dict \<times> nat list" where
  "get_server_stats w =
     (if has_psutil w then
        (case psutil_stats w [] of
           Inl e \<Rightarrow> Inl e
         | Inr stats \<Rightarrow> Inr (temperature w stats))
      else Inr (temperature w (proc_up w (proc_load w []))))"

subsection \<open>\<open>get_docker_containers\<close>\<close>

record container =
  name :: string
  status :: string
  running :: bool

definition parse_line :: "string \<Rightarrow> container" where
  "parse_line line =
     (let parts = split1 (CHR ''|'') line;
          nm = strip (fst parts);
          st = (case snd parts of Some rest \<Rightarrow> strip rest | None \<Rightarrow> ''unknown'');
          run = startswith (lower st) ''up'';
          display = (if run then ''UP'' else ''DOWN'')
      in \<lparr>name = nm, status = display, running = run\<rparr>)"

fun parse_lines :: "string list \<Rightarrow> container list" where
  "parse_lines [] = []"
| "parse_lines (line # rest) =
     (if strip line = [] then parse_lines rest
      else parse_line line # parse_lines rest)"

text \<open>\<open>sorted(containers, key=lambda x: (not x["running"], x["name"]))\<close>: a stable sort on
  the pair, \<open>False\<close> before \<open>True\<close>, strings by code point.\<close>

definition sort_key_of :: "container \<Rightarrow> bool \<times> string" where
  "sort_key_of x = (\<not> running x, name x)"

definition get_docker_containers :: "world \<Rightarrow> container list" where
  "get_docker_containers w =
     (case docker_ps w of
        Inr out \<Rightarrow> sort_key sort_key_of (parse_lines (splitlines (strip out)))
      | Inl (Exception msg) \<Rightarrow> [\<lparr>name = ''docker error'', status = msg, running = False\<rparr>])"

subsection \<open>\<open>main\<close>\<close>

definition container_json :: "container \<Rightarrow> json" where
  "container_json c =
     JObj [(''name'', JStr (name c)), (''status'', JStr (status c)), (''running'', JBool (running c))]"

text \<open>The dict literal of \<open>main\<close>: its values are computed in source order, so an exception
  of \<open>get_server_stats\<close> leaves before the container runtime is asked.\<close>

definition collect :: "world \<Rightarrow> exn + dict" where
  "collect w =
     (let updated = lower (strftime_now w);
          pihole = fst (get_pihole_stats w)
      in case get_server_stats w of
           Inl e \<Rightarrow> Inl e
         | Inr (server, probed) \<Rightarrow>
             Inr [(''updated'', JStr updated),
                  (''pihole'', JObj pihole),
                  (''server'', JObj server),
                  (''containers'', JArr (map container_json (get_docker_containers w)))])"

text \<open>\<open>with open(OUTPUT_FILE, "w") as f: json.dump(data, f, indent=2)\<close> as file operations:
  opening for writing truncates the file, each write appends, and the block closes it.\<close>

definition publish :: "world \<Rightarrow> dict \<Rightarrow> fs_op list" where
  "publish w data =
     Open_w (output_file w) # map (Write (output_file w)) (json_dump w data) @ [Close (output_file w)]"

text \<open>\<open>main\<close> returns the published data with the file operations made, or the exception that
  ends the process before any file operation.\<close>

definition main :: "world \<Rightarrow> exn + dict \<times> fs_op list" where
  "main w =
     (case collect w of
        Inl e \<Rightarrow> Inl e
      | Inr data \<Rightarrow>
          (case open_output w of
             Some e \<Rightarrow> Inl e
           | None \<Rightarrow> Inr (data, publish w data)))"

subsection \<open>Files as a reader sees them\<close>

type_synonym fs = "string \<Rightarrow> string option"

fun apply_op :: "fs \<Rightarrow> fs_op \<Rightarrow> fs" where
  "apply_op fs (Open_w p) = fs(p \<mapsto> [])"
| "apply_op fs (Write p s) = fs(p \<mapsto> (case fs p of Some old \<Rightarrow> old @ s | None \<Rightarrow> s))"
| "apply_op fs (Close p) = fs"

text \<open>What a read of \<open>p\<close> returns before the first operation and after each one.\<close>

fun observations :: "fs \<Rightarrow> string \<Rightarrow> fs_op list \<Rightarrow> string option list" where
  "observations fs p [] = [fs p]"
| "observations fs p (x # xs) = fs p # observations (apply_op fs x) p xs"

subsection \<open>A world for examples\<close>

text \<open>The document \<open>json.dump(data, f, indent=2)\<close> produces for the data that \<open>main\<close>
  collects in \<open>quiet_world\<close> below. The buffered file hands it to the operating system in
  one piece.\<close>

definition quiet_document :: string where
  \<open>quiet_document =
     concat (map (\<lambda>l. l @ [CHR 0x0A])
       [''{'',
        ''  "updated": "3:45 pm",'',
        ''  "pihole": {},'',
        ''  "server": {},'',
        ''  "containers": ['',
        ''    {'',
        ''      "name": "docker error",'',
        ''      "status": "docker not found",'',
        ''      "running": false'',
        ''    }'',
        ''  ]'']) @ ''}''\<close>

text \<open>No optional library is installed, no pseudo-file or thermal zone exists and the
  container runtime is absent.\<close>

definition quiet_world :: world where
  "quiet_world =
     \<lparr>has_requests = False, has_psutil = False,
      post_auth = Inl (Exception ''connection refused''),
      get_summary = (\<lambda>sid. Inl (Exception ''connection refused'')),
      delete_auth = (\<lambda>sid. None),
      cpu_percent = Inr 0, virtual_memory = Inr (0, 0, 0), disk_usage = Inr (0, 0, 0),
      getloadavg = Inr (0, 0, 0), boot_time = Inr 0, now_timestamp = 0,
      proc_loadavg = Inl (Exception ''no such file''),
      proc_uptime = Inl (Exception ''no such file''),
      py_float = (\<lambda>s. Inl (Exception ''could not convert string to float'')),
      thermal_zone = (\<lambda>z. NoFile),
      docker_ps = Inl (Exception ''docker not found''),
      strftime_now = ''3:45 PM'', output_file = ''sysmon.json'', open_output = None,
      json_dump = (\<lambda>data. [quiet_document])\<rparr>"

subsection \<open>Vocabulary of the specification\<close>

text \<open>A zone qualifies when it holds a reading, in thousandths of a degree, strictly
  between 10 and 120 degrees Celsius.\<close>

definition in_bounds :: "zone \<Rightarrow> bool" where
  "in_bounds z =
     (case z of
        Reading n \<Rightarrow> (10::rat) < of_int n / 1000 \<and> (of_int n / 1000 :: rat) < 120
      | _ \<Rightarrow> False)"

definition reading_of :: "zone \<Rightarrow> int" where
  "reading_of z = (case z of Reading n \<Rightarrow> n | _ \<Rightarrow> 0)"

text \<open>\<open>degrees n\<close> is the double \<open>n / 1000.0\<close> the loop computes for a reading
  \<open>n\<close>. A zone can be read when it has no file, or holds an integer that converts to a
  float.\<close>

definition degrees :: "int \<Rightarrow> rat" where
  "degrees n = float_div (double_of (of_int n)) 1000"

definition can_read :: "zone \<Rightarrow> bool" where
  "can_read z =
     (case z of
        NoFile \<Rightarrow> True
      | Unreadable e \<Rightarrow> False
      | Reading n \<Rightarrow> \<bar>n\<bar> < 2 ^ 1024 - 2 ^ 970)"

text \<open>Zones 0, 1 and 2 report 5000, 45000 and 999999; no other zone has a file.\<close>

definition zones_example :: "nat \<Rightarrow> zone" where
  "zones_example z =
     (if z = 0 then Reading 5000 else if z = 1 then Reading 45000
      else if z = 2 then Reading 999999 else NoFile)"

text \<open>Zone 0 reports 45150, whose quotient by 1000.0 is a double just below 45.15; no
  other zone has a file.\<close>

definition rounding_example :: "nat \<Rightarrow> zone" where
  "rounding_example z = (if z = 0 then Reading 45150 else NoFile)"

text \<open>The uptime string of the mapping \<open>get_server_stats\<close> returns. In \<open>psutil_world up\<close>
  psutil is installed and the host booted \<open>up\<close> seconds ago; in \<open>proc_world text up\<close> it is
  not, the first field of \<open>/proc/uptime\<close> is \<open>text\<close> and \<open>float(text)\<close> is \<open>up\<close>.\<close>

definition uptime_of :: "world \<Rightarrow> json option" where
  "uptime_of w =
     (case get_server_stats w of
        Inr (stats, probed) \<Rightarrow> map_of stats ''uptime_str''
      | Inl e \<Rightarrow> None)"

definition psutil_world :: "rat \<Rightarrow> world" where
  "psutil_world up =
     quiet_world\<lparr>has_psutil := True, boot_time := Inr 1700000000,
       now_timestamp := 1700000000 + up\<rparr>"

definition proc_world :: "string \<Rightarrow> rat \<Rightarrow> world" where
  "proc_world text up =
     quiet_world\<lparr>proc_uptime := Inr [text, ''12345.67''],
       py_float := (\<lambda>s. if s = text then Inr up
                         else Inl (Exception ''could not convert string to float''))\<rparr>"

subsection \<open>Worlds for the Pi-hole session\<close>


definition session_world :: world where
  "session_world =
     quiet_world\<lparr>has_requests := True,
       post_auth := Inr \<lparr>raise_for_status = None,
                         json_body = Inr (JObj [(''session'', JObj [(''sid'', JStr ''abc'')])])\<rparr>,
       get_summary := (\<lambda>sid. Inl (Exception ''read timed out'')),
       delete_auth := (\<lambda>sid. Some (Exception ''connection reset''))\<rparr>"

subsection \<open>Counters of a summary\<close>

text \<open>The field \<open>key\<close> of the counter object \<open>obj\<close> of a summary body, or the default when
  the object or the field is missing; and whether a counter object is missing or an
  object.\<close>

definition counter_field :: "dict \<Rightarrow> string \<Rightarrow> string \<Rightarrow> json \<Rightarrow> json" where
  "counter_field s obj key dflt =
     (case map_of s obj of
        Some (JObj kvs) \<Rightarrow> (case map_of kvs key of Some v \<Rightarrow> v | None \<Rightarrow> dflt)
      | _ \<Rightarrow> dflt)"

definition object_or_missing :: "dict \<Rightarrow> string \<Rightarrow> bool" where
  "object_or_missing s k =
     (case map_of s k of None \<Rightarrow> True | Some (JObj kvs) \<Rightarrow> True | Some _ \<Rightarrow> False)"

text \<open>\<open>empty_summary_world\<close>: the login succeeds and the summary body is \<open>{}\<close>.
  \<open>partial_summary_world\<close>: the summary body holds only \<open>queries.total = 7\<close>.\<close>

definition empty_summary_world :: world where
  "empty_summary_world =
     quiet_world\<lparr>has_requests := True,
       post_auth := Inr \<lparr>raise_for_status = None,
                         json_body = Inr (JObj [(''session'', JObj [(''sid'', JStr ''abc'')])])\<rparr>,
       get_summary := (\<lambda>sid. Inr \<lparr>raise_for_status = None, json_body = Inr (JObj [])\<rparr>)\<rparr>"

definition partial_summary :: dict where
  "partial_summary = [(''queries'', JObj [(''total'', JInt 7)])]"

definition partial_summary_world :: world where
  "partial_summary_world =
     empty_summary_world\<lparr>get_summary :=
       (\<lambda>sid. Inr \<lparr>raise_for_status = None, json_body = Inr (JObj partial_summary)\<rparr>)\<rparr>"

subsection \<open>A container listing\<close>

text \<open>The runtime prints the lines \<open>b|Up 2 days\<close>, \<open>a|Exited (1)\<close> and
  \<open>c|Up 5 hours\<close>.\<close>

definition docker_lines :: string where
  "docker_lines = ''b|Up 2 days'' @ [CHR 0x0A] @ ''a|Exited (1)'' @ [CHR 0x0A] @ ''c|Up 5 hours'' @ [CHR 0x0A]"

definition docker_world :: world where
  "docker_world = quiet_world\<lparr>docker_ps := Inr docker_lines\<rparr>"

subsection \<open>Snapshots\<close>

text \<open>\<open>old_psutil_world\<close>: psutil is installed in a version without \<open>getloadavg\<close>, so
  the call raises AttributeError.\<close>

definition old_psutil_world :: world where
  "old_psutil_world =
     quiet_world\<lparr>has_psutil := True,
       getloadavg := Inl (Exception ''module psutil has no attribute getloadavg'')\<rparr>"

text \<open>A source's value carries an error field when it is an object with the key
  \<open>error\<close>. \<open>synthetic_entry msg\<close> is the entry the container adapter returns when the
  runtime cannot be invoked.\<close>

definition carries_error :: "json \<Rightarrow> bool" where
  "carries_error v = (case v of JObj kvs \<Rightarrow> ''error'' \<in> fst ` set kvs | _ \<Rightarrow> False)"

definition synthetic_entry :: "string \<Rightarrow> json" where
  "synthetic_entry msg =
     JObj [(''name'', JStr ''docker error''), (''status'', JStr msg), (''running'', JBool False)]"

subsection \<open>Readers of the output file\<close>

text \<open>A reader sees only whole documents when every observation of the path is the
  content it had before or the complete new document. In \<open>old_fs\<close> the output file
  holds the previous snapshot.\<close>

definition reader_sees_whole :: "fs \<Rightarrow> string \<Rightarrow> fs_op list \<Rightarrow> string \<Rightarrow> bool" where
  "reader_sees_whole fs p ops doc =
     list_all (\<lambda>c. c = fs p \<or> c = Some doc) (observations fs p ops)"

definition old_fs :: fs where
  "old_fs = (\<lambda>p. None)(''sysmon.json'' \<mapsto> ''{old}'')"

section \<open>Properties\<close>

subsection \<open>Dictionaries and the keys of the host metrics\<close>

lemma keys_dict_set: "fst ` set (dict_set d k v) = insert k (fst ` set d)"
  by (induction d k v rule: dict_set.induct) auto

lemma map_of_dict_set: "map_of (dict_set d k v) k = Some v"
  by (induction d k v rule: dict_set.induct) auto

lemma map_of_dict_set_other: "k' \<noteq> k \<Longrightarrow> map_of (dict_set d k v) k' = map_of d k'"
  by (induction d k v rule: dict_set.induct) auto

lemma psutil_no_temp:
  assumes "psutil_stats w [] = Inr s"
  shows "''temp_c'' \<notin> fst ` set s"
  using assms unfolding psutil_stats_def and_then_def
  by (auto split: sum.splits prod.splits simp: keys_dict_set)

lemma proc_load_keys: "fst ` set (proc_load w d) \<subseteq> insert ''load_1'' (insert ''load_5'' (fst ` set d))"
  unfolding proc_load_def
  by (auto split: sum.splits list.splits simp: keys_dict_set Let_def)

lemma proc_up_keys: "fst ` set (proc_up w d) \<subseteq> insert ''uptime_str'' (fst ` set d)"
  unfolding proc_up_def
  by (auto split: sum.splits list.splits simp: keys_dict_set)

lemma proc_no_temp: "''temp_c'' \<notin> fst ` set (proc_up w (proc_load w []))"
proof
  assume "''temp_c'' \<in> fst ` set (proc_up w (proc_load w []))"
  then have "''temp_c'' \<in> insert ''uptime_str'' (fst ` set (proc_load w []))"
    using proc_up_keys by blast
  then have "''temp_c'' \<in> fst ` set (proc_load w [])" by simp
  then have "''temp_c'' \<in> insert ''load_1'' (insert ''load_5'' (fst ` set ([] :: dict)))"
    using proc_load_keys by blast
  then show False by simp
qed

lemma server_before_temperature:
  assumes "get_server_stats w = Inr (stats, probed)"
  obtains d where "''temp_c'' \<notin> fst ` set d" and "temperature w d = (stats, probed)"
proof (cases "has_psutil w")
  case True
  with assms obtain s where s: "psutil_stats w [] = Inr s" and t: "temperature w s = (stats, probed)"
    by (auto simp: get_server_stats_def split: sum.splits)
  show ?thesis using that [OF psutil_no_temp [OF s] t] .
next
  case False
  with assms have "temperature w (proc_up w (proc_load w [])) = (stats, probed)"
    by (simp add: get_server_stats_def)
  then show ?thesis using that [OF proc_no_temp] by blast
qed

subsection \<open>Uptime formatting\<close>

lemma floor_div_pos: fixes x :: rat assumes "0 < b" shows "\<lfloor>x / of_int b\<rfloor> = \<lfloor>x\<rfloor> div b"
proof (rule floor_unique)
  have b: "(0::rat) < of_int b" using assms by simp
  have eq: "\<lfloor>x\<rfloor> div b * b = \<lfloor>x\<rfloor> - \<lfloor>x\<rfloor> mod b" by (simp add: minus_mod_eq_div_mult)
  have lo: "0 \<le> \<lfloor>x\<rfloor> mod b" and hi: "\<lfloor>x\<rfloor> mod b < b" using assms by simp_all
  have "of_int (\<lfloor>x\<rfloor> div b) * (of_int b :: rat) = of_int (\<lfloor>x\<rfloor> div b * b)" by simp
  also have "\<dots> \<le> of_int \<lfloor>x\<rfloor>" unfolding of_int_le_iff using eq lo by linarith
  also have "\<dots> \<le> x" by simp
  finally show "of_int (\<lfloor>x\<rfloor> div b) \<le> x / of_int b" using b by (simp add: pos_le_divide_eq)
  have "(\<lfloor>x\<rfloor> div b + 1) * b = \<lfloor>x\<rfloor> div b * b + b" by (simp add: distrib_right)
  then have "\<lfloor>x\<rfloor> + 1 \<le> (\<lfloor>x\<rfloor> div b + 1) * b" using eq hi by linarith
  then have "(of_int (\<lfloor>x\<rfloor> + 1) :: rat) \<le> of_int ((\<lfloor>x\<rfloor> div b + 1) * b)" unfolding of_int_le_iff .
  moreover have "x < of_int (\<lfloor>x\<rfloor> + 1)" by linarith
  ultimately have "x < of_int ((\<lfloor>x\<rfloor> div b + 1) * b)" by linarith
  then show "x / of_int b < of_int (\<lfloor>x\<rfloor> div b) + 1" using b by (simp add: pos_divide_less_eq)
qed

lemma floordiv_numeral: "floordiv x (numeral n) = \<lfloor>x\<rfloor> div numeral n"
  unfolding floordiv_def using floor_div_pos [of "numeral n" x] by simp

lemma floordiv_fmod: 
  assumes "0 < c" "0 < k"
  shows "floordiv (fmod x (of_int (c * k))) (of_int c) = (\<lfloor>x\<rfloor> div c) mod k"
proof -
  have c: "(of_int c :: rat) \<noteq> 0" using assms by simp
  have "fmod x (of_int (c * k)) / of_int c = x / of_int c - of_int (k * \<lfloor>x / of_int (c * k)\<rfloor>)"
    unfolding fmod_def using c by (simp add: field_simps)
  then have "floordiv (fmod x (of_int (c * k))) (of_int c) = \<lfloor>x / of_int c\<rfloor> - k * \<lfloor>x / of_int (c * k)\<rfloor>"
    unfolding floordiv_def by (simp only: floor_diff_of_int)
  also have "\<dots> = \<lfloor>x\<rfloor> div c - k * (\<lfloor>x\<rfloor> div (c * k))"
    using assms by (simp only: floor_div_pos mult_pos_pos)
  also have "\<lfloor>x\<rfloor> div (c * k) = \<lfloor>x\<rfloor> div c div k"
    using assms by (simp add: zdiv_zmult2_eq)
  also have "\<lfloor>x\<rfloor> div c - k * (\<lfloor>x\<rfloor> div c div k) = (\<lfloor>x\<rfloor> div c) mod k"
    by (simp add: minus_mult_div_eq_mod)
  finally show ?thesis .
qed


lemma str_int_nonneg: "0 \<le> i \<Longrightarrow> str_int i = str_nat (nat i)"
  by (simp add: str_int_def)


lemma uptime_parts:
  assumes "0 \<le> up"
  shows "floordiv up 86400 = int (whole_seconds up div 86400)"
    and "floordiv (fmod up 86400) 3600 = int (whole_seconds up div 3600 mod 24)"
    and "floordiv (fmod up 3600) 60 = int (whole_seconds up div 60 mod 60)"
proof -
  have f: "0 \<le> \<lfloor>up\<rfloor>" using assms by simp
  then have s: "\<lfloor>up\<rfloor> = int (whole_seconds up)" by (simp add: whole_seconds_def)
  show "floordiv up 86400 = int (whole_seconds up div 86400)"
    using floordiv_numeral [of up] by (simp add: s zdiv_int)
  show "floordiv (fmod up 86400) 3600 = int (whole_seconds up div 3600 mod 24)"
    using floordiv_fmod [of 3600 24 up] by (simp add: s zdiv_int zmod_int)
  show "floordiv (fmod up 3600) 60 = int (whole_seconds up div 60 mod 60)"
    using floordiv_fmod [of 60 60 up] by (simp add: s zdiv_int zmod_int)
qed

lemma uptime_rich_eq:
  assumes "0 \<le> up"
  shows "uptime_rich up =
           (if 1 \<le> uptime_days up
            then str_nat (uptime_days up) @ ''d '' @ str_nat (uptime_hours up) @ ''h''
            else str_nat (uptime_hours up) @ ''h '' @ str_nat (uptime_minutes up) @ ''m'')"
  unfolding uptime_rich_def Let_def uptime_parts [OF assms] uptime_days_def uptime_hours_def
    uptime_minutes_def
  by (simp add: str_int_nonneg)

lemma uptime_fallback_eq:
  assumes "0 \<le> up"
  shows "uptime_fallback up = str_nat (uptime_days up) @ ''d '' @ str_nat (uptime_hours up) @ ''h''"
  unfolding uptime_fallback_def Let_def uptime_parts [OF assms] uptime_days_def uptime_hours_def
  by (simp add: str_int_nonneg)

lemma temperature_other_key:
  assumes "k \<noteq> ''temp_c''"
  shows "map_of (fst (temperature w d)) k = map_of d k"
  unfolding temperature_def using assms
  by (auto split: prod.splits sum.splits option.splits simp: map_of_dict_set_other)

lemma psutil_uptime:
  assumes "psutil_stats w [] = Inr s"
  shows "\<exists>bt. boot_time w = Inr bt
           \<and> map_of s ''uptime_str'' = Some (JStr (uptime_rich (now_timestamp w - bt)))"
  using assms unfolding psutil_stats_def and_then_def
  by (auto split: sum.splits prod.splits simp: map_of_dict_set)

lemma proc_up_uptime:
  assumes "proc_uptime w = Inr (p0 # ps)" and "py_float w p0 = Inr up"
  shows "map_of (proc_up w d) ''uptime_str'' = Some (JStr (uptime_fallback up))"
  using assms by (simp add: proc_up_def map_of_dict_set)

lemma server_uptime_psutil:
  assumes "has_psutil w" and "get_server_stats w = Inr (stats, probed)" and "boot_time w = Inr bt"
  shows "map_of stats ''uptime_str'' = Some (JStr (uptime_rich (now_timestamp w - bt)))"
proof -
  from assms(1,2) obtain s where s: "psutil_stats w [] = Inr s"
    and t: "temperature w s = (stats, probed)"
    by (auto simp: get_server_stats_def split: sum.splits)
  from psutil_uptime [OF s] assms(3)
  have "map_of s ''uptime_str'' = Some (JStr (uptime_rich (now_timestamp w - bt)))" by auto
  moreover have "map_of (fst (temperature w s)) ''uptime_str'' = map_of s ''uptime_str''"
    by (rule temperature_other_key) simp
  ultimately show ?thesis using t by simp
qed

lemma server_uptime_proc:
  assumes "\<not> has_psutil w" and "get_server_stats w = Inr (stats, probed)"
      and "proc_uptime w = Inr (p0 # ps)" and "py_float w p0 = Inr up"
  shows "map_of stats ''uptime_str'' = Some (JStr (uptime_fallback up))"
proof -
  let ?d = "proc_up w (proc_load w [])"
  from assms(1,2) have t: "temperature w ?d = (stats, probed)"
    by (simp add: get_server_stats_def)
  have "map_of ?d ''uptime_str'' = Some (JStr (uptime_fallback up))"
    using assms(3,4) by (rule proc_up_uptime)
  moreover have "map_of (fst (temperature w ?d)) ''uptime_str'' = map_of ?d ''uptime_str''"
    by (rule temperature_other_key) simp
  ultimately show ?thesis using t by simp
qed

text \<open>
  Claim C7. For every non-negative uptime in seconds, the psutil path stores under
  \<open>uptime_str\<close> the days and hours when at least one whole day has passed and the hours
  and minutes otherwise; the \<open>/proc\<close> path always stores days and hours. 90000 seconds
  give \<open>1d 1h\<close> on both paths; 3000 seconds give \<open>0h 50m\<close> on the psutil path and
  \<open>0d 0h\<close> on the \<open>/proc\<close> path.
\<close>

theorem uptime_formats:
  "(0 \<le> up \<longrightarrow>
      uptime_rich up =
        (if 1 \<le> uptime_days up
         then str_nat (uptime_days up) @ ''d '' @ str_nat (uptime_hours up) @ ''h''
         else str_nat (uptime_hours up) @ ''h '' @ str_nat (uptime_minutes up) @ ''m'')
      \<and> uptime_fallback up = str_nat (uptime_days up) @ ''d '' @ str_nat (uptime_hours up) @ ''h'')
   \<and> (has_psutil w \<and> get_server_stats w = Inr (stats, probed) \<and> boot_time w = Inr bt
        \<and> now_timestamp w - bt = up \<and> 0 \<le> up \<longrightarrow>
      map_of stats ''uptime_str'' =
        Some (JStr (if 1 \<le> uptime_days up
                    then str_nat (uptime_days up) @ ''d '' @ str_nat (uptime_hours up) @ ''h''
                    else str_nat (uptime_hours up) @ ''h '' @ str_nat (uptime_minutes up) @ ''m'')))
   \<and> (\<not> has_psutil w \<and> get_server_stats w = Inr (stats, probed)
        \<and> proc_uptime w = Inr (p0 # ps) \<and> py_float w p0 = Inr up \<and> 0 \<le> up \<longrightarrow>
      map_of stats ''uptime_str'' =
        Some (JStr (str_nat (uptime_days up) @ ''d '' @ str_nat (uptime_hours up) @ ''h'')))
   \<and> uptime_rich 90000 = ''1d 1h'' \<and> uptime_fallback 90000 = ''1d 1h''
   \<and> uptime_rich 3000 = ''0h 50m'' \<and> uptime_fallback 3000 = ''0d 0h''
   \<and> uptime_of (psutil_world 90000) = Some (JStr ''1d 1h'')
   \<and> uptime_of (proc_world ''90000.00'' 90000) = Some (JStr ''1d 1h'')
   \<and> uptime_of (psutil_world 3000) = Some (JStr ''0h 50m'')
   \<and> uptime_of (proc_world ''3000.00'' 3000) = Some (JStr ''0d 0h'')"
proof -
  have a: "uptime_rich up =
        (if 1 \<le> uptime_days up
         then str_nat (uptime_days up) @ ''d '' @ str_nat (uptime_hours up) @ ''h''
         else str_nat (uptime_hours up) @ ''h '' @ str_nat (uptime_minutes up) @ ''m'')
      \<and> uptime_fallback up = str_nat (uptime_days up) @ ''d '' @ str_nat (uptime_hours up) @ ''h''"
    if "0 \<le> up"
    using uptime_rich_eq [OF that] uptime_fallback_eq [OF that] by blast
  have b: "map_of stats ''uptime_str'' =
        Some (JStr (if 1 \<le> uptime_days up
                    then str_nat (uptime_days up) @ ''d '' @ str_nat (uptime_hours up) @ ''h''
                    else str_nat (uptime_hours up) @ ''h '' @ str_nat (uptime_minutes up) @ ''m''))"
    if "has_psutil w" "get_server_stats w = Inr (stats, probed)" "boot_time w = Inr bt"
       "now_timestamp w - bt = up" "0 \<le> up"
    using server_uptime_psutil [OF that(1,2,3)] uptime_rich_eq [OF that(5)] that(4) by simp
  have c: "map_of stats ''uptime_str'' =
        Some (JStr (str_nat (uptime_days up) @ ''d '' @ str_nat (uptime_hours up) @ ''h''))"
    if "\<not> has_psutil w" "get_server_stats w = Inr (stats, probed)"
       "proc_uptime w = Inr (p0 # ps)" "py_float w p0 = Inr up" "0 \<le> up"
    using server_uptime_proc [OF that(1,2,3,4)] uptime_fallback_eq [OF that(5)] by simp
  have e1: "uptime_rich 90000 = ''1d 1h''" by code_simp
  have e2: "uptime_fallback 90000 = ''1d 1h''" by code_simp
  have e3: "uptime_rich 3000 = ''0h 50m''" by code_simp
  have e4: "uptime_fallback 3000 = ''0d 0h''" by code_simp
  have w1: "uptime_of (psutil_world 90000) = Some (JStr ''1d 1h'')" by code_simp
  have w2: "uptime_of (proc_world ''90000.00'' 90000) = Some (JStr ''1d 1h'')" by code_simp
  have w3: "uptime_of (psutil_world 3000) = Some (JStr ''0h 50m'')" by code_simp
  have w4: "uptime_of (proc_world ''3000.00'' 3000) = Some (JStr ''0d 0h'')" by code_simp
  show ?thesis using a b c e1 e2 e3 e4 w1 w2 w3 w4 by blast
qed

theorem uptime_formats_witness:
  "has_psutil (psutil_world 200000) \<and> boot_time (psutil_world 200000) = Inr 1700000000
   \<and> now_timestamp (psutil_world 200000) - 1700000000 = 200000 \<and> (0::rat) \<le> 200000
   \<and> uptime_of (psutil_world 200000) = Some (JStr ''2d 7h'')
   \<and> \<not> has_psutil (proc_world ''200000.00'' 200000)
   \<and> proc_uptime (proc_world ''200000.00'' 200000) = Inr [''200000.00'', ''12345.67'']
   \<and> py_float (proc_world ''200000.00'' 200000) ''200000.00'' = Inr 200000
   \<and> uptime_of (proc_world ''200000.00'' 200000) = Some (JStr ''2d 7h'')
   \<and> uptime_rich 200000 = ''2d 7h'' \<and> uptime_fallback 200000 = ''2d 7h''"
proof -
  let ?p = "psutil_world 200000" and ?q = "proc_world ''200000.00'' 200000"
  have h: "(0::rat) \<le> 200000" by simp
  have d: "uptime_days 200000 = 2" "uptime_hours 200000 = 7" "uptime_minutes 200000 = 33"
    by (simp_all add: uptime_days_def uptime_hours_def uptime_minutes_def whole_seconds_def)
  have s: "str_nat 2 = ''2''" "str_nat 7 = ''7''" by code_simp+
  have p1: "has_psutil ?p" and p2: "boot_time ?p = Inr 1700000000"
    and p3: "now_timestamp ?p - 1700000000 = 200000"
    by (simp_all add: psutil_world_def quiet_world_def)
  have q1: "\<not> has_psutil ?q" and q2: "proc_uptime ?q = Inr [''200000.00'', ''12345.67'']"
    and q3: "py_float ?q ''200000.00'' = Inr 200000"
    by (simp_all add: proc_world_def quiet_world_def)
  have "\<exists>r. get_server_stats ?p = Inr r"
    by (simp add: get_server_stats_def psutil_stats_def and_then_def psutil_world_def
        quiet_world_def)
  then obtain ps pp where pr: "get_server_stats ?p = Inr (ps, pp)" by force
  have "\<exists>r. get_server_stats ?q = Inr r" using q1 by (simp add: get_server_stats_def)
  then obtain qs qp where qr: "get_server_stats ?q = Inr (qs, qp)" by force
  note inst = uptime_formats [of 200000 ?p ps pp 1700000000]
  have "map_of ps ''uptime_str'' = Some (JStr ''2d 7h'')"
    using inst p1 pr p2 p3 h by (simp add: d s)
  then have a: "uptime_of ?p = Some (JStr ''2d 7h'')" using pr by (simp add: uptime_of_def)
  have "map_of qs ''uptime_str'' = Some (JStr ''2d 7h'')"
    using uptime_formats [of 200000 ?q qs qp _ "''200000.00''" "[''12345.67'']"] q1 qr q2 q3 h
    by (simp add: d s)
  then have b: "uptime_of ?q = Some (JStr ''2d 7h'')" using qr by (simp add: uptime_of_def)
  have c: "uptime_rich 200000 = ''2d 7h'' \<and> uptime_fallback 200000 = ''2d 7h''"
    using inst h by (simp add: d s)
  show ?thesis using h p1 p2 p3 q1 q2 q3 a b c by blast
qed

subsection \<open>Rounding to the nearest double\<close>

lemma rhe_bounds: "\<lfloor>a\<rfloor> \<le> round_half_even a \<and> round_half_even a \<le> \<lfloor>a\<rfloor> + 1"
  by (simp add: round_half_even_def Let_def)

lemma rhe_of_int: "round_half_even (of_int k) = k"
  by (simp add: round_half_even_def)

lemma rhe_mono:
  assumes "a \<le> b"
  shows "round_half_even a \<le> round_half_even b"
proof (cases "\<lfloor>a\<rfloor> < \<lfloor>b\<rfloor>")
  case True
  then show ?thesis using rhe_bounds [of a] rhe_bounds [of b] by linarith
next
  case False
  then have eq: "\<lfloor>a\<rfloor> = \<lfloor>b\<rfloor>" using floor_mono [OF assms] by linarith
  have d: "a - of_int \<lfloor>b\<rfloor> \<le> b - of_int \<lfloor>b\<rfloor>" using assms by simp
  show ?thesis unfolding round_half_even_def Let_def eq using d by auto
qed

lemma two_powi_nat: "0 \<le> e \<Longrightarrow> (2::rat) powi e = 2 ^ nat e"
  by (simp add: power_int_def)

lemma floor_bitlen_bounds:
  fixes y :: rat
  assumes "1 \<le> y"
  shows "2 powi (bitlen \<lfloor>y\<rfloor> - 1) \<le> y \<and> y < 2 powi (bitlen \<lfloor>y\<rfloor>)"
    and "0 \<le> bitlen \<lfloor>y\<rfloor> - 1"
proof -
  let ?a = "\<lfloor>y\<rfloor>"
  have a: "0 < ?a" using assms by simp
  from bitlen_bounds [OF a]
  have lo: "2 ^ nat (bitlen ?a - 1) \<le> ?a" and hi: "?a < 2 ^ nat (bitlen ?a)" by simp_all
  have b1: "1 \<le> bitlen ?a"
    using a bitlen_eq_zero_iff [of ?a] bitlen_nonneg [of ?a] by linarith
  then show "0 \<le> bitlen ?a - 1" by simp
  have "(2::rat) powi (bitlen ?a - 1) = of_int (2 ^ nat (bitlen ?a - 1))"
    using b1 by (simp add: two_powi_nat)
  also have "\<dots> \<le> of_int ?a" using lo by (simp only: of_int_le_iff)
  also have "\<dots> \<le> y" by simp
  finally have l: "2 powi (bitlen ?a - 1) \<le> y" .
  have "?a + 1 \<le> 2 ^ nat (bitlen ?a)" using hi by simp
  then have "(of_int (?a + 1) :: rat) \<le> of_int (2 ^ nat (bitlen ?a))" by (simp only: of_int_le_iff)
  moreover have "y < of_int (?a + 1)" by linarith
  ultimately have "y < of_int (2 ^ nat (bitlen ?a))" by linarith
  also have "\<dots> = 2 powi (bitlen ?a)" using b1 by (simp add: two_powi_nat)
  finally have h: "y < 2 powi (bitlen ?a)" .
  show "2 powi (bitlen ?a - 1) \<le> y \<and> y < 2 powi (bitlen ?a)" using l h by blast
qed

lemma exponent_bounds:
  assumes "0 < x"
  shows "2 powi (exponent x) \<le> x \<and> x < 2 powi (exponent x + 1)"
proof (cases "1 \<le> x")
  case True
  then have e: "exponent x = bitlen \<lfloor>x\<rfloor> - 1" by (simp add: exponent_def)
  show ?thesis unfolding e using floor_bitlen_bounds(1) [OF True] by simp
next
  case False
  define k where "k = bitlen \<lfloor>1 / x\<rfloor> - 1"
  have y: "1 \<le> 1 / x" using assms False by simp
  from floor_bitlen_bounds(1) [OF y]
  have lo: "2 powi k \<le> 1 / x" and hi: "1 / x < 2 powi (k + 1)" by (simp_all add: k_def)
  have pk: "(0::rat) < 2 powi k" and pk1: "(0::rat) < 2 powi (k + 1)" by simp_all
  have up: "x \<le> 2 powi (- k)"
  proof -
    have "2 powi k * x \<le> 1" using lo assms by (simp add: field_simps)
    then have "x \<le> 1 / 2 powi k" using pk by (simp add: field_simps)
    then show ?thesis by (simp add: power_int_minus field_simps)
  qed
  have low: "2 powi (- k - 1) < x"
  proof -
    have "1 < 2 powi (k + 1) * x" using hi assms by (simp add: field_simps)
    then have "1 / 2 powi (k + 1) < x" using pk1 by (simp add: field_simps)
    moreover have "(2::rat) powi (- k - 1) = 1 / 2 powi (k + 1)"
    proof -
      have "- k - 1 = - (k + 1)" by simp
      then have "(2::rat) powi (- k - 1) = inverse (2 powi (k + 1))"
        by (simp only: power_int_minus)
      then show ?thesis by (simp only: inverse_eq_divide)
    qed
    ultimately show ?thesis by simp
  qed
  show ?thesis
  proof (cases "x = 2 powi (- k)")
    case True
    then have e: "exponent x = - k" using False by (simp add: exponent_def k_def Let_def)
    have "(2::rat) powi (- k + 1) = 2 powi (- k) * 2" by (rule power_int_add_1) simp
    then show ?thesis unfolding e using True assms by simp
  next
    case ne: False
    then have e: "exponent x = - k - 1" using False by (simp add: exponent_def k_def Let_def)
    have "x < 2 powi (- k)" using up ne by simp
    then show ?thesis unfolding e using low by simp
  qed
qed

lemma exponent_mono:
  assumes "0 < x" and "x \<le> y"
  shows "exponent x \<le> exponent y"
proof (rule ccontr)
  assume "\<not> exponent x \<le> exponent y"
  then have "exponent y + 1 \<le> exponent x" by simp
  then have "(2::rat) powi (exponent y + 1) \<le> 2 powi (exponent x)"
    by (intro power_int_increasing) simp_all
  moreover have "2 powi (exponent x) \<le> x" using exponent_bounds [OF assms(1)] by simp
  moreover have "y < 2 powi (exponent y + 1)" using exponent_bounds [of y] assms by simp
  ultimately show False using assms(2) by linarith
qed

lemma double_pos_bounds:
  assumes "0 < x"
  shows "2 powi (exponent x) \<le> double_pos x \<and> double_pos x \<le> 2 powi (exponent x + 1)"
proof -
  define e where "e = exponent x"
  define u :: rat where "u = 2 powi (e - 52)"
  have u: "0 < u" by (simp add: u_def)
  have pe: "2 powi e = 2 ^ 52 * u"
    unfolding u_def by (simp add: power_int_diff)
  have pe1: "2 powi (e + 1) = 2 ^ 53 * u"
    unfolding u_def by (simp add: power_int_diff power_int_add)
  from exponent_bounds [OF assms] have "2 ^ 52 * u \<le> x" and "x < 2 ^ 53 * u"
    unfolding e_def [symmetric] pe pe1 by simp_all
  then have a: "2 ^ 52 \<le> x / u" and b: "x / u \<le> 2 ^ 53"
    using u by (simp_all add: field_simps)
  have "round_half_even (of_int (2 ^ 52)) \<le> round_half_even (x / u)"
    using a by (intro rhe_mono) simp
  then have lo: "2 ^ 52 \<le> round_half_even (x / u)" by (simp only: rhe_of_int)
  have "round_half_even (x / u) \<le> round_half_even (of_int (2 ^ 53))"
    using b by (intro rhe_mono) simp
  then have hi: "round_half_even (x / u) \<le> 2 ^ 53" by (simp only: rhe_of_int)
  have d: "double_pos x = of_int (round_half_even (x / u)) * u"
    by (simp add: double_pos_def e_def u_def)
  have "(of_int (2 ^ 52) :: rat) \<le> of_int (round_half_even (x / u))"
    using lo by (simp only: of_int_le_iff)
  then have l: "2 ^ 52 * u \<le> double_pos x" unfolding d using u by simp
  have "(of_int (round_half_even (x / u)) :: rat) \<le> of_int (2 ^ 53)"
    using hi by (simp only: of_int_le_iff)
  then have h: "double_pos x \<le> 2 ^ 53 * u" unfolding d using u by simp
  show ?thesis unfolding e_def [symmetric] pe pe1 using l h by blast
qed

lemma double_pos_mono:
  assumes "0 < x" and "x \<le> y"
  shows "double_pos x \<le> double_pos y"
proof (cases "exponent x = exponent y")
  case True
  define u :: rat where "u = 2 powi (exponent y - 52)"
  have u: "0 < u" by (simp add: u_def)
  have "x / u \<le> y / u" using assms(2) u by (simp add: divide_right_mono)
  then have "round_half_even (x / u) \<le> round_half_even (y / u)" by (rule rhe_mono)
  then have "(of_int (round_half_even (x / u)) :: rat) \<le> of_int (round_half_even (y / u))"
    by (simp only: of_int_le_iff)
  then have "of_int (round_half_even (x / u)) * u \<le> of_int (round_half_even (y / u)) * u"
    using u by simp
  then show ?thesis by (simp add: double_pos_def True u_def)
next
  case False
  then have "exponent x + 1 \<le> exponent y" using exponent_mono [OF assms] by simp
  then have "(2::rat) powi (exponent x + 1) \<le> 2 powi (exponent y)"
    by (intro power_int_increasing) simp_all
  moreover have "double_pos x \<le> 2 powi (exponent x + 1)"
    using double_pos_bounds [OF assms(1)] by simp
  moreover have "2 powi (exponent y) \<le> double_pos y"
    using double_pos_bounds [of y] assms by simp
  ultimately show ?thesis by linarith
qed

lemma double_of_pos: "0 < x \<Longrightarrow> 0 < double_of x"
proof -
  assume x: "0 < x"
  have "(0::rat) < 2 powi (exponent x)" by simp
  also have "\<dots> \<le> double_pos x" using double_pos_bounds [OF x] by simp
  finally show ?thesis using x by (simp add: double_of_def)
qed

lemma double_of_nonpos: "x \<le> 0 \<Longrightarrow> double_of x \<le> 0"
proof (cases "x = 0")
  case True
  then show ?thesis by (simp add: double_of_def)
next
  case False
  assume "x \<le> 0"
  with False have x: "0 < - x" by simp
  have "0 < double_of (- x)" using double_of_pos [OF x] .
  then show ?thesis using x by (simp add: double_of_def split: if_splits)
qed

lemma double_of_mono:
  assumes "0 < x" and "x \<le> y"
  shows "double_of x \<le> double_of y"
  using double_pos_mono [OF assms] assms by (simp add: double_of_def)

subsection \<open>Thermal zones\<close>

lemma degrees_low: "10 < degrees n \<longleftrightarrow> 10000 < n"
proof (cases "n \<le> 0")
  case True
  then have "double_of (of_int n) \<le> 0" by (intro double_of_nonpos) simp
  then have "double_of (of_int n) / 1000 \<le> 0" by simp
  then have "degrees n \<le> 0" unfolding degrees_def float_div_def by (rule double_of_nonpos)
  then show ?thesis using True by simp
next
  case False
  then have n: "(0::rat) < of_int n" by simp
  have f: "0 < double_of (of_int n)" using n by (rule double_of_pos)
  have e1: "double_of 10000 = 10000" by code_simp
  have e2: "double_of 10 = 10" by code_simp
  have e3: "double_of 10001 = 10001" by code_simp
  have e4: "10 < double_of (10001 / 1000)" by code_simp
  show ?thesis
  proof (cases "n \<le> 10000")
    case True
    then have "(of_int n :: rat) \<le> 10000" by simp
    then have "double_of (of_int n) \<le> double_of 10000" using n by (intro double_of_mono)
    then have "double_of (of_int n) / 1000 \<le> 10" unfolding e1 by simp
    moreover have "0 < double_of (of_int n) / 1000" using f by simp
    ultimately have "double_of (double_of (of_int n) / 1000) \<le> double_of 10"
      by (intro double_of_mono)
    then have "degrees n \<le> 10" unfolding e2 degrees_def float_div_def .
    then show ?thesis using True by simp
  next
    case False
    then have "(10001::rat) \<le> of_int n" by simp
    then have "double_of 10001 \<le> double_of (of_int n)" by (intro double_of_mono) simp
    then have "10001 / 1000 \<le> double_of (of_int n) / 1000" unfolding e3 by simp
    then have "double_of (10001 / 1000) \<le> double_of (double_of (of_int n) / 1000)"
      by (intro double_of_mono) simp
    then have "10 < degrees n" using e4 unfolding degrees_def float_div_def by linarith
    then show ?thesis using False by simp
  qed
qed

lemma degrees_high: "degrees n < 120 \<longleftrightarrow> n < 120000"
proof (cases "n \<le> 0")
  case True
  then have "double_of (of_int n) \<le> 0" by (intro double_of_nonpos) simp
  then have "double_of (of_int n) / 1000 \<le> 0" by simp
  then have "degrees n \<le> 0" unfolding degrees_def float_div_def by (rule double_of_nonpos)
  then show ?thesis using True by simp
next
  case False
  then have n: "(0::rat) < of_int n" by simp
  have f: "0 < double_of (of_int n)" using n by (rule double_of_pos)
  have e1: "double_of 120000 = 120000" by code_simp
  have e2: "double_of 120 = 120" by code_simp
  have e3: "double_of 119999 = 119999" by code_simp
  have e4: "double_of (119999 / 1000) < 120" by code_simp
  show ?thesis
  proof (cases "n \<le> 119999")
    case True
    then have "(of_int n :: rat) \<le> 119999" by simp
    then have "double_of (of_int n) \<le> double_of 119999" using n by (intro double_of_mono)
    then have "double_of (of_int n) / 1000 \<le> 119999 / 1000" unfolding e3 by simp
    moreover have "0 < double_of (of_int n) / 1000" using f by simp
    ultimately have "double_of (double_of (of_int n) / 1000) \<le> double_of (119999 / 1000)"
      by (intro double_of_mono)
    then have "degrees n < 120" using e4 unfolding degrees_def float_div_def by linarith
    then show ?thesis using True by simp
  next
    case False
    then have "(120000::rat) \<le> of_int n" by simp
    then have "double_of 120000 \<le> double_of (of_int n)" by (intro double_of_mono) simp
    then have "120 \<le> double_of (of_int n) / 1000" unfolding e1 by simp
    then have "double_of 120 \<le> double_of (double_of (of_int n) / 1000)"
      by (intro double_of_mono) simp
    then have "120 \<le> degrees n" unfolding e2 degrees_def float_div_def .
    then show ?thesis using False by simp
  qed
qed

lemma in_bounds_reading: "in_bounds (Reading n) \<longleftrightarrow> 10000 < n \<and> n < 120000"
proof -
  have "(10::rat) < of_int n / 1000 \<longleftrightarrow> (10000::rat) < of_int n" by (simp add: field_simps)
  also have "\<dots> \<longleftrightarrow> 10000 < n" by linarith
  finally have a: "(10::rat) < of_int n / 1000 \<longleftrightarrow> 10000 < n" .
  have "(of_int n / 1000 :: rat) < 120 \<longleftrightarrow> (of_int n :: rat) < 120000" by (simp add: field_simps)
  also have "\<dots> \<longleftrightarrow> n < 120000" by linarith
  finally have b: "(of_int n / 1000 :: rat) < 120 \<longleftrightarrow> n < 120000" .
  show ?thesis by (simp add: in_bounds_def a b)
qed

lemma degrees_in_bounds: "10 < degrees n \<and> degrees n < 120 \<longleftrightarrow> in_bounds (Reading n)"
  by (simp only: degrees_low degrees_high in_bounds_reading)

lemma in_bounds_converts:
  assumes "in_bounds (Reading n)"
  shows "int_to_float n = Inr (double_of (of_int n))"
proof -
  from assms have "10000 < n" and "n < 120000" by (simp_all only: in_bounds_reading)
  then have "\<bar>n\<bar> < 120000" by simp
  moreover have "(120000::int) < 2 ^ 1024 - 2 ^ 970" by simp
  ultimately have "\<bar>n\<bar> < 2 ^ 1024 - 2 ^ 970" by (rule less_trans)
  then show ?thesis by (simp only: int_to_float_def if_True)
qed

lemma probe_reading:
  assumes "tz a = Reading n" and "int_to_float n = Inr (double_of (of_int n))"
  shows "probe_zones tz (a # zs) =
          (if in_bounds (Reading n) then (Inr (Some (py_round (degrees n) 1)), [a])
           else (case probe_zones tz zs of (r, probed) \<Rightarrow> (r, a # probed)))"
  by (simp only: probe_zones.simps assms zone.case sum.case Let_def
      degrees_def [symmetric] degrees_in_bounds)

lemma probe_skip:
  assumes "\<not> in_bounds (tz a)" and "can_read (tz a)"
  shows "probe_zones tz (a # zs) = (case probe_zones tz zs of (r, probed) \<Rightarrow> (r, a # probed))"
proof (cases "tz a")
  case NoFile
  then show ?thesis by simp
next
  case (Unreadable e)
  then show ?thesis using assms(2) by (simp add: can_read_def)
next
  case (Reading n)
  then have nb: "\<not> in_bounds (Reading n)" using assms(1) by simp
  have "\<bar>n\<bar> < 2 ^ 1024 - 2 ^ 970" using assms(2) Reading by (simp add: can_read_def)
  then have "int_to_float n = Inr (double_of (of_int n))"
    by (simp only: int_to_float_def if_True)
  from probe_reading [of tz a n zs, OF Reading this] show ?thesis using nb by simp
qed

lemma probe_hit:
  assumes "in_bounds (tz a)"
  shows "probe_zones tz (a # zs) =
           (Inr (Some (py_round (degrees (reading_of (tz a))) 1)), [a])"
proof -
  from assms obtain n where n: "tz a = Reading n"
    by (cases "tz a") (simp_all add: in_bounds_def)
  then have b: "in_bounds (Reading n)" using assms by simp
  from probe_reading [of tz a n zs, OF n in_bounds_converts [OF b]]
  show ?thesis using n b by (simp add: reading_of_def)
qed

lemma probe_zones_upt:
  assumes "\<And>z. a \<le> z \<Longrightarrow> z < b \<Longrightarrow> can_read (tz z)"
  shows "probe_zones tz [a..<b] =
     (case List.find (\<lambda>z. in_bounds (tz z)) [a..<b] of
        None \<Rightarrow> (Inr None, [a..<b])
      | Some k \<Rightarrow> (Inr (Some (py_round (degrees (reading_of (tz k))) 1)), [a..<Suc k]))"
  using assms
proof (induction "b - a" arbitrary: a)
  case 0
  then show ?case by simp
next
  case (Suc d)
  then have ab: "a < b" and d: "d = b - Suc a" by linarith+
  have upt: "[a..<b] = a # [Suc a..<b]" using ab by (simp add: upt_rec)
  have ih: "probe_zones tz [Suc a..<b] =
     (case List.find (\<lambda>z. in_bounds (tz z)) [Suc a..<b] of
        None \<Rightarrow> (Inr None, [Suc a..<b])
      | Some k \<Rightarrow> (Inr (Some (py_round (degrees (reading_of (tz k))) 1)), [Suc a..<Suc k]))"
    using Suc.hyps(1) [OF d] Suc.prems by simp
  have nou: "can_read (tz a)" using Suc.prems ab by simp
  show ?case
  proof (cases "in_bounds (tz a)")
    case True
    have one: "[a..<Suc a] = [a]" by simp
    show ?thesis unfolding upt using True by (simp only: probe_hit find.simps if_True option.case one)
  next
    case False
    show ?thesis
    proof (cases "List.find (\<lambda>z. in_bounds (tz z)) [Suc a..<b]")
      case None
      show ?thesis
        unfolding upt probe_skip [of tz a, OF False nou] ih None
        using False by (simp only: find.simps if_False None option.case prod.case)
    next
      case (Some k)
      then have "k \<in> set [Suc a..<b]" unfolding find_Some_iff by (metis nth_mem)
      then have "a < k" by simp
      then have k: "[a..<Suc k] = a # [Suc a..<Suc k]" by (simp add: upt_rec)
      show ?thesis
        unfolding upt probe_skip [of tz a, OF False nou] ih Some
        using False by (simp only: find.simps if_False Some option.case prod.case k)
    qed
  qed
qed

lemma temperature_hit:
  assumes readable: "\<And>z. z < 10 \<Longrightarrow> can_read (thermal_zone w z)"
      and k: "k < 10" "thermal_zone w k = Reading n" "in_bounds (Reading n)"
      and first: "\<And>j. j < k \<Longrightarrow> \<not> in_bounds (thermal_zone w j)"
  shows "temperature w d = (dict_set d ''temp_c'' (JFloat (py_round (degrees n) 1)), [0..<Suc k])"
proof -
  have "List.find (\<lambda>z. in_bounds (thermal_zone w z)) [0..<10] = Some k"
    unfolding find_Some_iff using k first
    by (intro exI [of _ k]) (simp add: nth_upt)
  then have "probe_zones (thermal_zone w) [0..<10] =
               (Inr (Some (py_round (degrees n) 1)), [0..<Suc k])"
    using probe_zones_upt [of 0 10 "thermal_zone w"] readable k
    by (simp add: reading_of_def del: upt_Suc)
  then show ?thesis by (simp add: temperature_def del: upt_Suc)
qed

lemma temperature_none:
  assumes readable: "\<And>z. z < 10 \<Longrightarrow> can_read (thermal_zone w z)"
      and none: "\<And>k. k < 10 \<Longrightarrow> \<not> in_bounds (thermal_zone w k)"
  shows "temperature w d = (d, [0..<10])"
proof -
  have "List.find (\<lambda>z. in_bounds (thermal_zone w z)) [0..<10] = None"
    unfolding find_None_iff using none by simp
  then have "probe_zones (thermal_zone w) [0..<10] = (Inr None, [0..<10])"
    using probe_zones_upt [of 0 10 "thermal_zone w"] readable
    by (simp del: upt_Suc)
  then show ?thesis by (simp add: temperature_def del: upt_Suc)
qed

lemma zones_example_run:
  "get_server_stats (quiet_world\<lparr>thermal_zone := zones_example\<rparr>) = Inr ([(''temp_c'', JFloat 45)], [0, 1])"
  by code_simp

text \<open>
  Claim C8. When the readings of zones 0 to 9 can all be read, the adapter reports the
  first reading strictly between 10 and 120 degrees Celsius (rounded to one decimal) and
  tests no zone after it; when no zone qualifies the key \<open>temp_c\<close> is absent and all ten
  zones were tested. With zones 0, 1, 2 reporting 5000, 45000, 999999 it reports 45.0
  after testing zones 0 and 1 only.
\<close>

lemma rounding_example_run:
  "get_server_stats (quiet_world\<lparr>thermal_zone := rounding_example\<rparr>)
     = Inr ([(''temp_c'', JFloat (451 / 10))], [0])"
  by code_simp

text \<open>
  Claim C8. When every zone from 0 to 9 can be read, the adapter reports the first
  reading strictly between 10 and 120 degrees Celsius, as the double \<open>n / 1000.0\<close>
  rounded to one decimal, and tests no zone after it; when no zone qualifies the key
  \<open>temp_c\<close> is absent and all ten zones were tested. With zones 0, 1, 2 reporting 5000,
  45000, 999999 it reports 45.0 after testing zones 0 and 1 only; a reading of 45150
  is reported as 45.1.
\<close>

theorem thermal_probe:
  assumes ret: "get_server_stats w = Inr (stats, probed)"
      and readable: "\<forall>z<10. can_read (thermal_zone w z)"
  shows "(\<forall>k n. k < 10 \<and> thermal_zone w k = Reading n \<and> in_bounds (Reading n)
                \<and> (\<forall>j<k. \<not> in_bounds (thermal_zone w j))
            \<longrightarrow> map_of stats ''temp_c'' = Some (JFloat (py_round (degrees n) 1))
                \<and> probed = [0..<Suc k])
       \<and> ((\<forall>k<10. \<not> in_bounds (thermal_zone w k))
            \<longrightarrow> ''temp_c'' \<notin> fst ` set stats \<and> probed = [0..<10])
       \<and> get_server_stats (quiet_world\<lparr>thermal_zone := zones_example\<rparr>)
            = Inr ([(''temp_c'', JFloat 45)], [0, 1])
       \<and> get_server_stats (quiet_world\<lparr>thermal_zone := rounding_example\<rparr>)
            = Inr ([(''temp_c'', JFloat (451 / 10))], [0])"
proof -
  from ret obtain d where d: "''temp_c'' \<notin> fst ` set d" and t: "temperature w d = (stats, probed)"
    by (rule server_before_temperature)
  have r: "\<And>z. z < 10 \<Longrightarrow> can_read (thermal_zone w z)" using readable by blast
  have hit: "map_of stats ''temp_c'' = Some (JFloat (py_round (degrees n) 1)) \<and> probed = [0..<Suc k]"
    if "k < 10" "thermal_zone w k = Reading n" "in_bounds (Reading n)"
       "\<forall>j<k. \<not> in_bounds (thermal_zone w j)" for k n
  proof -
    have "temperature w d = (dict_set d ''temp_c'' (JFloat (py_round (degrees n) 1)), [0..<Suc k])"
      using temperature_hit [OF r that(1,2,3)] that(4) by blast
    with t have "stats = dict_set d ''temp_c'' (JFloat (py_round (degrees n) 1))"
      and "probed = [0..<Suc k]" by simp_all
    then show ?thesis using map_of_dict_set by blast
  qed
  have none: "''temp_c'' \<notin> fst ` set stats \<and> probed = [0..<10]"
    if "\<forall>k<10. \<not> in_bounds (thermal_zone w k)"
  proof -
    have "temperature w d = (d, [0..<10])" using temperature_none [OF r] that by blast
    with t d show ?thesis by simp
  qed
  show ?thesis using hit none zones_example_run rounding_example_run by blast
qed

theorem thermal_probe_witness:
  "get_server_stats (quiet_world\<lparr>thermal_zone := zones_example\<rparr>)
      = Inr ([(''temp_c'', JFloat 45)], [0, 1])
   \<and> can_read (thermal_zone (quiet_world\<lparr>thermal_zone := zones_example\<rparr>) 2)
   \<and> thermal_zone (quiet_world\<lparr>thermal_zone := zones_example\<rparr>) 1 = Reading 45000
   \<and> in_bounds (Reading 45000)
   \<and> \<not> in_bounds (thermal_zone (quiet_world\<lparr>thermal_zone := zones_example\<rparr>) 0)
   \<and> map_of [(''temp_c'', JFloat 45)] ''temp_c'' = Some (JFloat (py_round (degrees 45000) 1))
   \<and> [0, 1] = [0..<Suc 1]"
proof -
  let ?w = "quiet_world\<lparr>thermal_zone := zones_example\<rparr>"
  have ret: "get_server_stats ?w = Inr ([(''temp_c'', JFloat 45)], [0, 1])"
    by (rule zones_example_run)
  have rd: "\<forall>z<10. can_read (thermal_zone ?w z)"
    by (simp add: zones_example_def can_read_def)
  have k: "(1::nat) < 10" "thermal_zone ?w 1 = Reading 45000"
    by (simp_all add: zones_example_def)
  have b: "in_bounds (Reading 45000)" by (simp add: in_bounds_def)
  have f: "\<forall>j<1. \<not> in_bounds (thermal_zone ?w j)"
    by (simp add: zones_example_def in_bounds_def)
  have "map_of [(''temp_c'', JFloat 45)] ''temp_c'' = Some (JFloat (py_round (degrees 45000) 1))
        \<and> [0, 1] = [0..<Suc 1]"
    using thermal_probe [OF ret rd] k b f by blast
  then show ?thesis using ret rd k b f by simp
qed

subsection \<open>The Pi-hole session\<close>


lemma logout_truthy: "truthy sid \<Longrightarrow> has_requests w \<Longrightarrow> logout w sid = [DELETE_auth sid]"
  by (simp add: logout_def split: option.splits)

lemma login_delete_irrelevant: "login (w\<lparr>delete_auth := d\<rparr>) = login w"
  by (simp add: login_def)

lemma fetch_delete_irrelevant: "fetch_summary (w\<lparr>delete_auth := d\<rparr>) sid = fetch_summary w sid"
  by (simp add: fetch_summary_def)

lemma logout_calls_irrelevant: "logout (w\<lparr>delete_auth := d\<rparr>) sid = logout w sid"
  by (simp add: logout_def split: option.splits)




lemma pihole_calls_logged_in:
  assumes "has_requests w" and "login w = Inr sid" and "truthy sid"
  shows "snd (get_pihole_stats w) = [POST_auth, GET_summary sid, DELETE_auth sid]"
  using assms
  by (cases "fetch_summary w sid")
     (auto simp: get_pihole_stats_def logout_truthy split: exn.splits)

lemma pihole_delete_irrelevant:
  "get_pihole_stats (w\<lparr>delete_auth := d\<rparr>) = get_pihole_stats w"
  unfolding get_pihole_stats_def
  by (simp only: login_delete_irrelevant fetch_delete_irrelevant logout_calls_irrelevant)
     simp

text \<open>
  Claim C5. Whenever the login yields a session id that counts as true, the requests made
  are the POST, the summary GET and one DELETE, whether the summary fetch returns the
  counters or raises; and the adapter's result is the same whatever the DELETE does.
\<close>

theorem logout_once:
  assumes "has_requests w" and "login w = Inr sid" and "truthy sid"
  shows "snd (get_pihole_stats w) = [POST_auth, GET_summary sid, DELETE_auth sid]
       \<and> count_list (snd (get_pihole_stats w)) (DELETE_auth sid) = 1
       \<and> (fetch_summary w sid = Inr counters \<longrightarrow> fst (get_pihole_stats w) = counters)
       \<and> (fetch_summary w sid = Inl (Exception msg)
            \<longrightarrow> fst (get_pihole_stats w) = [(''error'', JStr msg)])
       \<and> get_pihole_stats (w\<lparr>delete_auth := d\<rparr>) = get_pihole_stats w"
proof -
  have calls: "snd (get_pihole_stats w) = [POST_auth, GET_summary sid, DELETE_auth sid]"
    using assms by (rule pihole_calls_logged_in)
  have once: "count_list (snd (get_pihole_stats w)) (DELETE_auth sid) = 1"
    unfolding calls by simp
  have ok: "fst (get_pihole_stats w) = counters" if "fetch_summary w sid = Inr counters"
    using assms that by (simp add: get_pihole_stats_def)
  have err: "fst (get_pihole_stats w) = [(''error'', JStr msg)]"
    if "fetch_summary w sid = Inl (Exception msg)"
    using assms that by (simp add: get_pihole_stats_def)
  show ?thesis using calls once ok err pihole_delete_irrelevant by blast
qed

theorem logout_once_witness:
  "has_requests session_world \<and> login session_world = Inr (JStr ''abc'') \<and> truthy (JStr ''abc'')
   \<and> fetch_summary session_world (JStr ''abc'') = Inl (Exception ''read timed out'')
   \<and> get_pihole_stats session_world =
        ([(''error'', JStr ''read timed out'')],
         [POST_auth, GET_summary (JStr ''abc''), DELETE_auth (JStr ''abc'')])
   \<and> get_pihole_stats (session_world\<lparr>delete_auth := (\<lambda>sid. None)\<rparr>) = get_pihole_stats session_world"
proof -
  have h: "has_requests session_world" by (simp add: session_world_def quiet_world_def)
  have l: "login session_world = Inr (JStr ''abc'')"
    by (simp add: session_world_def quiet_world_def login_def)
  have t: "truthy (JStr ''abc'')" by simp
  have f: "fetch_summary session_world (JStr ''abc'') = Inl (Exception ''read timed out'')"
    by (simp add: session_world_def quiet_world_def fetch_summary_def and_then_def)
  from logout_once [OF h l t, of _ "''read timed out''" "\<lambda>sid. None"] f
  have "snd (get_pihole_stats session_world) =
          [POST_auth, GET_summary (JStr ''abc''), DELETE_auth (JStr ''abc'')]"
    and "fst (get_pihole_stats session_world) = [(''error'', JStr ''read timed out'')]"
    and "get_pihole_stats (session_world\<lparr>delete_auth := (\<lambda>sid. None)\<rparr>) = get_pihole_stats session_world"
    by blast+
  then show ?thesis using h l t f by (simp add: prod_eq_iff)
qed

subsection \<open>A summary with missing counters\<close>

lemma counter_object:
  assumes "object_or_missing s k"
  shows "\<exists>kvs. dict_get (JObj s) k (JObj []) = Inr (JObj kvs)
           \<and> (\<forall>key dflt. dict_get (JObj kvs) key dflt = Inr (counter_field s k key dflt))"
proof (cases "map_of s k")
  case None
  then have "dict_get (JObj s) k (JObj []) = Inr (JObj [])
      \<and> (\<forall>key dflt. dict_get (JObj []) key dflt = Inr (counter_field s k key dflt))"
    by (simp add: counter_field_def)
  then show ?thesis by blast
next
  case (Some v)
  with assms obtain kvs where v: "v = JObj kvs"
    by (cases v) (simp_all add: object_or_missing_def)
  have "dict_get (JObj s) k (JObj []) = Inr (JObj kvs)
      \<and> (\<forall>key dflt. dict_get (JObj kvs) key dflt = Inr (counter_field s k key dflt))"
    using Some v by (simp add: counter_field_def)
  then show ?thesis by blast
qed

lemma summary_counters_defaults:
  assumes "object_or_missing s ''queries''" and "object_or_missing s ''gravity''"
      and "object_or_missing s ''clients''"
      and "round_json (counter_field s ''queries'' ''percent_blocked'' (JFloat 0)) 2 = Inr pct"
  shows "summary_counters (JObj s) =
     Inr [(''queries_today'', counter_field s ''queries'' ''total'' (JInt 0)),
          (''ads_blocked_today'', counter_field s ''queries'' ''blocked'' (JInt 0)),
          (''ads_percentage_today'', pct),
          (''domains_being_blocked'', counter_field s ''gravity'' ''domains_being_blocked'' (JInt 0)),
          (''queries_forwarded'', counter_field s ''queries'' ''forwarded'' (JInt 0)),
          (''queries_cached'', counter_field s ''queries'' ''cached'' (JInt 0)),
          (''unique_clients'', counter_field s ''clients'' ''active'' (JInt 0))]"
proof -
  from assms(1) obtain q where q: "dict_get (JObj s) ''queries'' (JObj []) = Inr (JObj q)"
    and qf: "\<And>key dflt. dict_get (JObj q) key dflt = Inr (counter_field s ''queries'' key dflt)"
    using counter_object by blast
  from assms(2) obtain g where g: "dict_get (JObj s) ''gravity'' (JObj []) = Inr (JObj g)"
    and gf: "\<And>key dflt. dict_get (JObj g) key dflt = Inr (counter_field s ''gravity'' key dflt)"
    using counter_object by blast
  from assms(3) obtain c where c: "dict_get (JObj s) ''clients'' (JObj []) = Inr (JObj c)"
    and cf: "\<And>key dflt. dict_get (JObj c) key dflt = Inr (counter_field s ''clients'' key dflt)"
    using counter_object by blast
  show ?thesis
    unfolding summary_counters_def and_then_def q g c qf gf cf sum.case assms(4)
    by (rule refl)
qed

text \<open>
  Claim C10. When the login and the summary request succeed and the summary body is an
  object in which each of \<open>queries\<close>, \<open>gravity\<close> and \<open>clients\<close> is missing or an
  object (and the percentage, when present, is a number), the adapter returns the seven
  counters, each the body's field or else 0 (0.0 for the percentage), never an error
  mapping; for the body \<open>{}\<close> all seven are zero.
\<close>

theorem missing_counters_default:
  assumes "has_requests w" and "login w = Inr sid"
      and "get_summary w sid = Inr r" and "json_body r = Inr (JObj s)"
      and "object_or_missing s ''queries''" and "object_or_missing s ''gravity''"
      and "object_or_missing s ''clients''"
      and "round_json (counter_field s ''queries'' ''percent_blocked'' (JFloat 0)) 2 = Inr pct"
  shows "fst (get_pihole_stats w) =
           [(''queries_today'', counter_field s ''queries'' ''total'' (JInt 0)),
            (''ads_blocked_today'', counter_field s ''queries'' ''blocked'' (JInt 0)),
            (''ads_percentage_today'', pct),
            (''domains_being_blocked'', counter_field s ''gravity'' ''domains_being_blocked'' (JInt 0)),
            (''queries_forwarded'', counter_field s ''queries'' ''forwarded'' (JInt 0)),
            (''queries_cached'', counter_field s ''queries'' ''cached'' (JInt 0)),
            (''unique_clients'', counter_field s ''clients'' ''active'' (JInt 0))]
       \<and> (map_of s ''queries'' = None \<longrightarrow> pct = JFloat 0)
       \<and> fst (get_pihole_stats empty_summary_world) =
           [(''queries_today'', JInt 0), (''ads_blocked_today'', JInt 0),
            (''ads_percentage_today'', JFloat 0), (''domains_being_blocked'', JInt 0),
            (''queries_forwarded'', JInt 0), (''queries_cached'', JInt 0),
            (''unique_clients'', JInt 0)]"
proof -
  have "fetch_summary w sid = summary_counters (JObj s)"
    using assms(3,4) by (simp add: fetch_summary_def and_then_def)
  then have a: "fst (get_pihole_stats w) =
           [(''queries_today'', counter_field s ''queries'' ''total'' (JInt 0)),
            (''ads_blocked_today'', counter_field s ''queries'' ''blocked'' (JInt 0)),
            (''ads_percentage_today'', pct),
            (''domains_being_blocked'', counter_field s ''gravity'' ''domains_being_blocked'' (JInt 0)),
            (''queries_forwarded'', counter_field s ''queries'' ''forwarded'' (JInt 0)),
            (''queries_cached'', counter_field s ''queries'' ''cached'' (JInt 0)),
            (''unique_clients'', counter_field s ''clients'' ''active'' (JInt 0))]"
    using assms(1,2) summary_counters_defaults [OF assms(5-8)]
    by (simp add: get_pihole_stats_def)
  have z: "py_round 0 2 = 0" by (simp add: py_round_def round_half_even_def)
  have b: "pct = JFloat 0" if "map_of s ''queries'' = None"
    using assms(8) that by (simp add: counter_field_def z)
  have c: "fst (get_pihole_stats empty_summary_world) =
           [(''queries_today'', JInt 0), (''ads_blocked_today'', JInt 0),
            (''ads_percentage_today'', JFloat 0), (''domains_being_blocked'', JInt 0),
            (''queries_forwarded'', JInt 0), (''queries_cached'', JInt 0),
            (''unique_clients'', JInt 0)]"
    by code_simp
  show ?thesis using a b c by blast
qed

theorem missing_counters_default_witness:
  "has_requests partial_summary_world \<and> login partial_summary_world = Inr (JStr ''abc'')
   \<and> get_summary partial_summary_world (JStr ''abc'')
        = Inr \<lparr>raise_for_status = None, json_body = Inr (JObj partial_summary)\<rparr>
   \<and> object_or_missing partial_summary ''queries'' \<and> object_or_missing partial_summary ''gravity''
   \<and> object_or_missing partial_summary ''clients''
   \<and> round_json (counter_field partial_summary ''queries'' ''percent_blocked'' (JFloat 0)) 2
        = Inr (JFloat 0)
   \<and> fst (get_pihole_stats partial_summary_world) =
        [(''queries_today'', JInt 7), (''ads_blocked_today'', JInt 0),
         (''ads_percentage_today'', JFloat 0), (''domains_being_blocked'', JInt 0),
         (''queries_forwarded'', JInt 0), (''queries_cached'', JInt 0),
         (''unique_clients'', JInt 0)]"
proof -
  let ?r = "\<lparr>raise_for_status = None, json_body = Inr (JObj partial_summary)\<rparr>"
  have h: "has_requests partial_summary_world"
    by (simp add: partial_summary_world_def empty_summary_world_def quiet_world_def)
  have l: "login partial_summary_world = Inr (JStr ''abc'')"
    by (simp add: partial_summary_world_def empty_summary_world_def quiet_world_def login_def)
  have g: "get_summary partial_summary_world (JStr ''abc'') = Inr ?r"
    by (simp add: partial_summary_world_def)
  have b: "json_body ?r = Inr (JObj partial_summary)" by simp
  have o: "object_or_missing partial_summary ''queries''"
    "object_or_missing partial_summary ''gravity''"
    "object_or_missing partial_summary ''clients''"
    by (simp_all add: object_or_missing_def partial_summary_def)
  have z: "py_round 0 2 = 0" by (simp add: py_round_def round_half_even_def)
  have p: "round_json (counter_field partial_summary ''queries'' ''percent_blocked'' (JFloat 0)) 2
             = Inr (JFloat 0)"
    by (simp add: counter_field_def partial_summary_def z)
  have f: "counter_field partial_summary ''queries'' ''total'' (JInt 0) = JInt 7"
    "counter_field partial_summary ''queries'' ''blocked'' (JInt 0) = JInt 0"
    "counter_field partial_summary ''queries'' ''forwarded'' (JInt 0) = JInt 0"
    "counter_field partial_summary ''queries'' ''cached'' (JInt 0) = JInt 0"
    "counter_field partial_summary ''gravity'' ''domains_being_blocked'' (JInt 0) = JInt 0"
    "counter_field partial_summary ''clients'' ''active'' (JInt 0) = JInt 0"
    by (simp_all add: counter_field_def partial_summary_def)
  have "fst (get_pihole_stats partial_summary_world) =
        [(''queries_today'', JInt 7), (''ads_blocked_today'', JInt 0),
         (''ads_percentage_today'', JFloat 0), (''domains_being_blocked'', JInt 0),
         (''queries_forwarded'', JInt 0), (''queries_cached'', JInt 0),
         (''unique_clients'', JInt 0)]"
    using missing_counters_default [OF h l g b o p] by (simp only: f)
  then show ?thesis using h l g o p by blast
qed

subsection \<open>Container order\<close>

lemma docker_example:
  "get_docker_containers docker_world =
     [\<lparr>name = ''b'', status = ''UP'', running = True\<rparr>,
      \<lparr>name = ''c'', status = ''UP'', running = True\<rparr>,
      \<lparr>name = ''a'', status = ''DOWN'', running = False\<rparr>]"
  by code_simp

lemma parsed_example:
  "parse_lines (splitlines (strip docker_lines)) =
     [\<lparr>name = ''b'', status = ''UP'', running = True\<rparr>,
      \<lparr>name = ''a'', status = ''DOWN'', running = False\<rparr>,
      \<lparr>name = ''c'', status = ''UP'', running = True\<rparr>]"
  by code_simp

text \<open>
  Claim C1 as stated fails: for the three example lines the adapter returns \<open>b\<close>, \<open>c\<close>,
  \<open>a\<close>, the running containers first, not \<open>a\<close>, \<open>b\<close>, \<open>c\<close>.
\<close>

theorem stopped_first_counterexample:
  "parse_lines (splitlines (strip docker_lines)) =
     [\<lparr>name = ''b'', status = ''UP'', running = True\<rparr>,
      \<lparr>name = ''a'', status = ''DOWN'', running = False\<rparr>,
      \<lparr>name = ''c'', status = ''UP'', running = True\<rparr>]
   \<and> get_docker_containers docker_world \<noteq>
     [\<lparr>name = ''a'', status = ''DOWN'', running = False\<rparr>,
      \<lparr>name = ''b'', status = ''UP'', running = True\<rparr>,
      \<lparr>name = ''c'', status = ''UP'', running = True\<rparr>]
   \<and> running (get_docker_containers docker_world ! 0)
   \<and> \<not> running (get_docker_containers docker_world ! 2)"
  unfolding docker_example parsed_example by simp

lemma sorted_pairs:
  assumes "sorted (map f xs)" and "i < j" and "j < length xs"
  shows "f (xs ! i) \<le> f (xs ! j)"
  using assms by (simp add: sorted_iff_nth_mono)

lemma key_le_iff:
  "sort_key_of x \<le> sort_key_of y \<longleftrightarrow>
     (running x \<and> \<not> running y) \<or> (running x = running y \<and> name x \<le> name y)"
  by (auto simp: sort_key_of_def less_eq_prod_def)

text \<open>
  Claim C1, amended. The adapter returns the parsed entries reordered so that no stopped
  container precedes a running one and, among containers of the same state, names
  ascend; for the three example lines the result is \<open>b\<close> (UP), \<open>c\<close> (UP), \<open>a\<close> (DOWN).
\<close>

theorem running_first:
  assumes "docker_ps w = Inr out"
  shows "mset (get_docker_containers w) = mset (parse_lines (splitlines (strip out)))
       \<and> (\<forall>i j. i < j \<and> j < length (get_docker_containers w) \<longrightarrow>
            (running (get_docker_containers w ! j) \<longrightarrow> running (get_docker_containers w ! i))
          \<and> (running (get_docker_containers w ! i) = running (get_docker_containers w ! j)
               \<longrightarrow> name (get_docker_containers w ! i) \<le> name (get_docker_containers w ! j)))
       \<and> get_docker_containers docker_world =
           [\<lparr>name = ''b'', status = ''UP'', running = True\<rparr>,
            \<lparr>name = ''c'', status = ''UP'', running = True\<rparr>,
            \<lparr>name = ''a'', status = ''DOWN'', running = False\<rparr>]"
proof -
  let ?cs = "get_docker_containers w"
  let ?ps = "parse_lines (splitlines (strip out))"
  have cs: "?cs = sort_key sort_key_of ?ps"
    using assms by (simp add: get_docker_containers_def)
  have m: "mset ?cs = mset ?ps" unfolding cs by simp
  have s: "sorted (map sort_key_of ?cs)" unfolding cs by simp
  have o: "(running (?cs ! j) \<longrightarrow> running (?cs ! i))
          \<and> (running (?cs ! i) = running (?cs ! j) \<longrightarrow> name (?cs ! i) \<le> name (?cs ! j))"
    if "i < j" "j < length ?cs" for i j
  proof -
    have "sort_key_of (?cs ! i) \<le> sort_key_of (?cs ! j)"
      using s that by (rule sorted_pairs)
    then show ?thesis unfolding key_le_iff by blast
  qed
  show ?thesis using m o docker_example by blast
qed

theorem running_first_witness:
  "docker_ps docker_world = Inr docker_lines
   \<and> running (get_docker_containers docker_world ! 0)
   \<and> running (get_docker_containers docker_world ! 1)
   \<and> name (get_docker_containers docker_world ! 0) \<le> name (get_docker_containers docker_world ! 1)
   \<and> running (get_docker_containers docker_world ! 0)
   \<and> \<not> running (get_docker_containers docker_world ! 2)"
proof -
  have d: "docker_ps docker_world = Inr docker_lines"
    by (simp add: docker_world_def quiet_world_def)
  have l: "(0::nat) < 1 \<and> 1 < length (get_docker_containers docker_world)"
    unfolding docker_example by simp
  have r: "running (get_docker_containers docker_world ! 0)"
    "running (get_docker_containers docker_world ! 1)"
    "\<not> running (get_docker_containers docker_world ! 2)"
    unfolding docker_example by simp_all
  have "name (get_docker_containers docker_world ! 0) \<le> name (get_docker_containers docker_world ! 1)"
    using running_first [OF d] l r by blast
  then show ?thesis using d r by blast
qed

subsection \<open>Container status values\<close>

lemma parse_line_status:
  "(status (parse_line l) = ''UP'' \<and> running (parse_line l))
   \<or> (status (parse_line l) = ''DOWN'' \<and> \<not> running (parse_line l))"
  by (simp add: parse_line_def Let_def)

lemma parse_lines_status:
  "c \<in> set (parse_lines ls) \<Longrightarrow>
     (status c = ''UP'' \<and> running c) \<or> (status c = ''DOWN'' \<and> \<not> running c)"
proof -
  assume "c \<in> set (parse_lines ls)"
  then have "c \<in> parse_line ` set ls"
    by (induction ls) (auto split: if_splits)
  then obtain l where "c = parse_line l" by blast
  then show ?thesis using parse_line_status [of l] by simp
qed

text \<open>
  Claim C9 as stated fails: when the runtime cannot be invoked, the status of the single
  entry returned is the exception's message, here \<open>docker not found\<close>.
\<close>

theorem synthetic_status_counterexample:
  "get_docker_containers quiet_world =
     [\<lparr>name = ''docker error'', status = ''docker not found'', running = False\<rparr>]
   \<and> \<not> (\<forall>c \<in> set (get_docker_containers quiet_world). status c = ''UP'' \<or> status c = ''DOWN'')"
proof -
  have "get_docker_containers quiet_world =
     [\<lparr>name = ''docker error'', status = ''docker not found'', running = False\<rparr>]"
    by (simp add: get_docker_containers_def quiet_world_def)
  then show ?thesis by simp
qed

text \<open>
  Claim C9, amended. When the runtime's listing is obtained, every entry's status is
  \<open>UP\<close> for a running container and \<open>DOWN\<close> otherwise; when the invocation fails, the
  result is one entry named \<open>docker error\<close>, not running, whose status is the
  exception's message.
\<close>

theorem status_values:
  "(docker_ps w = Inr out \<longrightarrow>
      (\<forall>c \<in> set (get_docker_containers w).
         (status c = ''UP'' \<and> running c) \<or> (status c = ''DOWN'' \<and> \<not> running c)))
   \<and> (docker_ps w = Inl (Exception msg) \<longrightarrow>
        get_docker_containers w = [\<lparr>name = ''docker error'', status = msg, running = False\<rparr>])"
proof -
  have a: "(status c = ''UP'' \<and> running c) \<or> (status c = ''DOWN'' \<and> \<not> running c)"
    if "docker_ps w = Inr out" "c \<in> set (get_docker_containers w)" for c
  proof -
    have "c \<in> set (parse_lines (splitlines (strip out)))"
      using that by (simp add: get_docker_containers_def)
    then show ?thesis by (rule parse_lines_status)
  qed
  have b: "get_docker_containers w = [\<lparr>name = ''docker error'', status = msg, running = False\<rparr>]"
    if "docker_ps w = Inl (Exception msg)"
    using that by (simp add: get_docker_containers_def)
  show ?thesis using a b by blast
qed

theorem status_values_witness:
  "docker_ps docker_world = Inr docker_lines
   \<and> \<lparr>name = ''a'', status = ''DOWN'', running = False\<rparr> \<in> set (get_docker_containers docker_world)
   \<and> docker_ps quiet_world = Inl (Exception ''docker not found'')
   \<and> get_docker_containers quiet_world =
        [\<lparr>name = ''docker error'', status = ''docker not found'', running = False\<rparr>]
   \<and> ((status \<lparr>name = ''a'', status = ''DOWN'', running = False\<rparr> = ''UP''
         \<and> running \<lparr>name = ''a'', status = ''DOWN'', running = False\<rparr>)
       \<or> (status \<lparr>name = ''a'', status = ''DOWN'', running = False\<rparr> = ''DOWN''
         \<and> \<not> running \<lparr>name = ''a'', status = ''DOWN'', running = False\<rparr>))"
proof -
  have d: "docker_ps docker_world = Inr docker_lines"
    by (simp add: docker_world_def quiet_world_def)
  have m: "\<lparr>name = ''a'', status = ''DOWN'', running = False\<rparr> \<in> set (get_docker_containers docker_world)"
    unfolding docker_example by simp
  have q: "docker_ps quiet_world = Inl (Exception ''docker not found'')"
    by (simp add: quiet_world_def)
  from status_values [of docker_world docker_lines] d m
  have one: "(status \<lparr>name = ''a'', status = ''DOWN'', running = False\<rparr> = ''UP''
         \<and> running \<lparr>name = ''a'', status = ''DOWN'', running = False\<rparr>)
       \<or> (status \<lparr>name = ''a'', status = ''DOWN'', running = False\<rparr> = ''DOWN''
         \<and> \<not> running \<lparr>name = ''a'', status = ''DOWN'', running = False\<rparr>)"
    by blast
  from status_values [of quiet_world _ "''docker not found''"] q
  have two: "get_docker_containers quiet_world =
        [\<lparr>name = ''docker error'', status = ''docker not found'', running = False\<rparr>]"
    by blast
  show ?thesis using d m q one two by blast
qed

subsection \<open>Exceptions leaving an adapter\<close>

lemma server_without_psutil: "\<not> has_psutil w \<Longrightarrow> \<exists>r. get_server_stats w = Inr r"
  by (simp add: get_server_stats_def)

text \<open>
  Claim C3. Each adapter is to return normally whatever the external facilities do. The
  psutil branch of \<open>get_server_stats\<close> has no \<open>try\<close>: when \<open>psutil.getloadavg()\<close>
  raises, the exception leaves \<open>get_server_stats\<close> and \<open>main\<close>, and nothing is written.
\<close>

theorem psutil_failure_escapes:
  "get_server_stats old_psutil_world = Inl (Exception ''module psutil has no attribute getloadavg'')
   \<and> main old_psutil_world = Inl (Exception ''module psutil has no attribute getloadavg'')"
  by (simp add: old_psutil_world_def quiet_world_def get_server_stats_def psutil_stats_def
      and_then_def main_def collect_def)

subsection \<open>Keys of the snapshot\<close>

lemma collect_quiet:
  "collect quiet_world =
     Inr [(''updated'', JStr ''3:45 pm''), (''pihole'', JObj []), (''server'', JObj []),
          (''containers'', JArr [synthetic_entry ''docker not found''])]"
  by code_simp

text \<open>
  Claim C2 as stated fails: with the HTTP library missing and the container runtime
  absent, the value of \<open>pihole\<close> is the empty object and the value of \<open>containers\<close> is
  a list; neither is an object with an \<open>error\<close> field.
\<close>

theorem error_field_counterexample:
  "\<not> has_requests quiet_world \<and> docker_ps quiet_world = Inl (Exception ''docker not found'')
   \<and> collect quiet_world =
     Inr [(''updated'', JStr ''3:45 pm''), (''pihole'', JObj []), (''server'', JObj []),
          (''containers'', JArr [synthetic_entry ''docker not found''])]
   \<and> \<not> carries_error (JObj [])
   \<and> \<not> carries_error (JArr [synthetic_entry ''docker not found''])"
  unfolding collect_quiet by (simp add: quiet_world_def carries_error_def)

lemma psutil_keys:
  assumes "psutil_stats w [] = Inr s"
  shows "''error'' \<notin> fst ` set s"
  using assms unfolding psutil_stats_def and_then_def
  by (auto split: sum.splits prod.splits simp: keys_dict_set)

lemma proc_keys: "''error'' \<notin> fst ` set (proc_up w (proc_load w []))"
proof
  assume "''error'' \<in> fst ` set (proc_up w (proc_load w []))"
  then have "''error'' \<in> insert ''uptime_str'' (fst ` set (proc_load w []))"
    using proc_up_keys by blast
  then have "''error'' \<in> fst ` set (proc_load w [])" by simp
  then have "''error'' \<in> insert ''load_1'' (insert ''load_5'' (fst ` set ([] :: dict)))"
    using proc_load_keys by blast
  then show False by simp
qed

lemma temperature_keys: "fst ` set (fst (temperature w d)) \<subseteq> insert ''temp_c'' (fst ` set d)"
  unfolding temperature_def
  by (auto split: prod.splits sum.splits option.splits simp: keys_dict_set)

lemma server_no_error:
  assumes "get_server_stats w = Inr (s, probed)"
  shows "''error'' \<notin> fst ` set s"
proof (cases "has_psutil w")
  case True
  with assms obtain d where d: "psutil_stats w [] = Inr d" and t: "temperature w d = (s, probed)"
    by (auto simp: get_server_stats_def split: sum.splits)
  have "fst ` set s \<subseteq> insert ''temp_c'' (fst ` set d)"
    using temperature_keys [of w d] t by simp
  then show ?thesis using psutil_keys [OF d] by auto
next
  case False
  with assms have t: "temperature w (proc_up w (proc_load w [])) = (s, probed)"
    by (simp add: get_server_stats_def)
  have "fst ` set s \<subseteq> insert ''temp_c'' (fst ` set (proc_up w (proc_load w [])))"
    using temperature_keys [of w "proc_up w (proc_load w [])"] t by simp
  then show ?thesis using proc_keys [of w] by auto
qed

lemma collect_shape:
  assumes "collect w = Inr data"
  obtains s probed where "get_server_stats w = Inr (s, probed)"
    and "data = [(''updated'', JStr (lower (strftime_now w))),
                 (''pihole'', JObj (fst (get_pihole_stats w))),
                 (''server'', JObj s),
                 (''containers'', JArr (map container_json (get_docker_containers w)))]"
  using assms by (auto simp: collect_def Let_def split: sum.splits)

lemma main_collect: "main w = Inr (data, ops) \<Longrightarrow> collect w = Inr data"
  by (auto simp: main_def split: sum.splits option.splits)

text \<open>
  Claim C2, amended. Every snapshot that \<open>main\<close> publishes has exactly the keys
  \<open>updated\<close>, \<open>pihole\<close>, \<open>server\<close>, \<open>containers\<close>, whichever adapters failed. A
  failed login or summary fetch makes \<open>pihole\<close> the object whose only key is \<open>error\<close>;
  without the HTTP library \<open>pihole\<close> is the empty object; a failed container listing
  makes \<open>containers\<close> the list of one synthetic entry; \<open>server\<close> is an object without
  an \<open>error\<close> key.
\<close>

theorem snapshot_keys:
  assumes "main w = Inr (data, ops)"
  shows "map fst data = [''updated'', ''pihole'', ''server'', ''containers'']
       \<and> (has_requests w \<and> login w = Inl (Exception msg)
            \<longrightarrow> map_of data ''pihole'' = Some (JObj [(''error'', JStr msg)]))
       \<and> (has_requests w \<and> login w = Inr sid \<and> fetch_summary w sid = Inl (Exception msg)
            \<longrightarrow> map_of data ''pihole'' = Some (JObj [(''error'', JStr msg)]))
       \<and> (\<not> has_requests w \<longrightarrow> map_of data ''pihole'' = Some (JObj []))
       \<and> (docker_ps w = Inl (Exception msg)
            \<longrightarrow> map_of data ''containers'' = Some (JArr [synthetic_entry msg]))
       \<and> (\<exists>s. map_of data ''server'' = Some (JObj s) \<and> ''error'' \<notin> fst ` set s)"
proof -
  from assms have "collect w = Inr data" by (rule main_collect)
  then obtain s probed where srv: "get_server_stats w = Inr (s, probed)"
    and data: "data = [(''updated'', JStr (lower (strftime_now w))),
                 (''pihole'', JObj (fst (get_pihole_stats w))),
                 (''server'', JObj s),
                 (''containers'', JArr (map container_json (get_docker_containers w)))]"
    by (rule collect_shape)
  have k: "map fst data = [''updated'', ''pihole'', ''server'', ''containers'']"
    unfolding data by simp
  have p: "map_of data ''pihole'' = Some (JObj (fst (get_pihole_stats w)))"
    unfolding data by simp
  have c: "map_of data ''containers'' = Some (JArr (map container_json (get_docker_containers w)))"
    unfolding data by simp
  have sv: "map_of data ''server'' = Some (JObj s)"
    unfolding data by simp
  have p1: "map_of data ''pihole'' = Some (JObj [(''error'', JStr msg)])"
    if "has_requests w" "login w = Inl (Exception msg)"
    unfolding p using that by (simp add: get_pihole_stats_def)
  have p2: "map_of data ''pihole'' = Some (JObj [(''error'', JStr msg)])"
    if "has_requests w" "login w = Inr sid" "fetch_summary w sid = Inl (Exception msg)"
    unfolding p using that by (simp add: get_pihole_stats_def)
  have p3: "map_of data ''pihole'' = Some (JObj [])" if "\<not> has_requests w"
    unfolding p using that by (simp add: get_pihole_stats_def)
  have c1: "map_of data ''containers'' = Some (JArr [synthetic_entry msg])"
    if "docker_ps w = Inl (Exception msg)"
    unfolding c using that
    by (simp add: get_docker_containers_def container_json_def synthetic_entry_def)
  have s1: "\<exists>s. map_of data ''server'' = Some (JObj s) \<and> ''error'' \<notin> fst ` set s"
    using sv server_no_error [OF srv] by blast
  show ?thesis using k p1 p2 p3 c1 s1 by blast
qed

lemma main_quiet:
  "main quiet_world =
     Inr ([(''updated'', JStr ''3:45 pm''), (''pihole'', JObj []), (''server'', JObj []),
           (''containers'', JArr [synthetic_entry ''docker not found''])],
          [Open_w ''sysmon.json'', Write ''sysmon.json'' quiet_document, Close ''sysmon.json''])"
  unfolding main_def collect_quiet by (simp add: quiet_world_def publish_def)

theorem snapshot_keys_witness:
  "\<not> has_requests quiet_world \<and> docker_ps quiet_world = Inl (Exception ''docker not found'')
   \<and> map fst [(''updated'', JStr ''3:45 pm''), (''pihole'', JObj []), (''server'', JObj []),
               (''containers'', JArr [synthetic_entry ''docker not found''])]
        = [''updated'', ''pihole'', ''server'', ''containers'']
   \<and> map_of [(''updated'', JStr ''3:45 pm''), (''pihole'', JObj []), (''server'', JObj []),
              (''containers'', JArr [synthetic_entry ''docker not found''])] ''pihole''
        = Some (JObj [])
   \<and> map_of [(''updated'', JStr ''3:45 pm''), (''pihole'', JObj []), (''server'', JObj []),
              (''containers'', JArr [synthetic_entry ''docker not found''])] ''containers''
        = Some (JArr [synthetic_entry ''docker not found''])"
proof -
  have h: "\<not> has_requests quiet_world" by (simp add: quiet_world_def)
  have d: "docker_ps quiet_world = Inl (Exception ''docker not found'')"
    by (simp add: quiet_world_def)
  show ?thesis
    using snapshot_keys [OF main_quiet, of "''docker not found''"] h d by blast
qed

subsection \<open>Writing the output file\<close>

lemma observations_nonempty: "observations fs p ops \<noteq> []"
  by (cases ops) simp_all

lemma observations_writes:
  assumes "fs p = Some acc"
  shows "(\<forall>c \<in> set (observations fs p (map (Write p) cs @ [Close p])).
            \<exists>n. c = Some (acc @ take n (concat cs)))
       \<and> last (observations fs p (map (Write p) cs @ [Close p])) = Some (acc @ concat cs)"
  using assms
proof (induction cs arbitrary: fs acc)
  case Nil
  then show ?case by simp
next
  case (Cons c cs)
  let ?fs = "apply_op fs (Write p c)"
  have fs': "?fs p = Some (acc @ c)" using Cons.prems by simp
  have obs: "observations fs p (map (Write p) (c # cs) @ [Close p]) =
               Some acc # observations ?fs p (map (Write p) cs @ [Close p])"
    using Cons.prems by simp
  from Cons.IH [of ?fs "acc @ c", OF fs']
  have ih1: "\<forall>x \<in> set (observations ?fs p (map (Write p) cs @ [Close p])).
               \<exists>n. x = Some ((acc @ c) @ take n (concat cs))"
    and ih2: "last (observations ?fs p (map (Write p) cs @ [Close p])) = Some ((acc @ c) @ concat cs)"
    by blast+
  have a: "\<exists>n. x = Some (acc @ take n (concat (c # cs)))"
    if "x \<in> set (observations fs p (map (Write p) (c # cs) @ [Close p]))" for x
  proof (cases "x = Some acc")
    case True
    then have "x = Some (acc @ take 0 (concat (c # cs)))" by simp
    then show ?thesis by blast
  next
    case False
    with that obs have "x \<in> set (observations ?fs p (map (Write p) cs @ [Close p]))" by simp
    with ih1 obtain n where "x = Some ((acc @ c) @ take n (concat cs))" by blast
    then have "x = Some (acc @ take (length c + n) (concat (c # cs)))" by simp
    then show ?thesis by blast
  qed
  have b: "last (observations fs p (map (Write p) (c # cs) @ [Close p])) = Some (acc @ concat (c # cs))"
    unfolding obs using ih2 observations_nonempty by simp
  show ?case using a b by blast
qed

lemma observations_publish:
  "observations fs p (Open_w p # map (Write p) cs @ [Close p]) ! 0 = fs p
   \<and> observations fs p (Open_w p # map (Write p) cs @ [Close p]) ! 1 = Some []
   \<and> (\<forall>c \<in> set (observations fs p (Open_w p # map (Write p) cs @ [Close p])).
         c = fs p \<or> (\<exists>n. c = Some (take n (concat cs))))
   \<and> last (observations fs p (Open_w p # map (Write p) cs @ [Close p])) = Some (concat cs)"
proof -
  let ?fs = "apply_op fs (Open_w p)"
  have t: "?fs p = Some []" by simp
  have obs: "observations fs p (Open_w p # map (Write p) cs @ [Close p]) =
               fs p # observations ?fs p (map (Write p) cs @ [Close p])"
    by simp
  from observations_writes [of ?fs p "[]" cs, OF t]
  have w1: "\<forall>c \<in> set (observations ?fs p (map (Write p) cs @ [Close p])).
              \<exists>n. c = Some (take n (concat cs))"
    and w2: "last (observations ?fs p (map (Write p) cs @ [Close p])) = Some (concat cs)"
    by simp_all
  have one: "observations ?fs p (map (Write p) cs @ [Close p]) ! 0 = Some []"
    by (cases cs) simp_all
  show ?thesis unfolding obs using w1 w2 one observations_nonempty by simp
qed

text \<open>
  Claim C6 as stated fails: \<open>main\<close> opens the output path itself for writing, so between
  the open and the write a reader finds the file empty, neither the previous snapshot
  nor the new one.
\<close>

theorem torn_read_counterexample:
  "main quiet_world =
     Inr ([(''updated'', JStr ''3:45 pm''), (''pihole'', JObj []), (''server'', JObj []),
           (''containers'', JArr [synthetic_entry ''docker not found''])],
          [Open_w ''sysmon.json'', Write ''sysmon.json'' quiet_document, Close ''sysmon.json''])
   \<and> observations old_fs ''sysmon.json''
         [Open_w ''sysmon.json'', Write ''sysmon.json'' quiet_document, Close ''sysmon.json'']
       = [Some ''{old}'', Some [], Some quiet_document, Some quiet_document]
   \<and> \<not> reader_sees_whole old_fs ''sysmon.json''
         [Open_w ''sysmon.json'', Write ''sysmon.json'' quiet_document, Close ''sysmon.json''] quiet_document"
proof -
  have o: "observations old_fs ''sysmon.json''
         [Open_w ''sysmon.json'', Write ''sysmon.json'' quiet_document, Close ''sysmon.json'']
       = [Some ''{old}'', Some [], Some quiet_document, Some quiet_document]"
    by (simp add: old_fs_def)
  have r: "\<not> reader_sees_whole old_fs ''sysmon.json''
         [Open_w ''sysmon.json'', Write ''sysmon.json'' quiet_document, Close ''sysmon.json''] quiet_document"
    unfolding reader_sees_whole_def o by (simp add: old_fs_def quiet_document_def)
  show ?thesis using main_quiet o r by blast
qed

text \<open>
  Claim C6, amended. Every publication opens the output path itself for writing, which
  truncates it, writes the document to it and closes it; no temporary file and no
  rename is involved. A reader of the path sees its previous content, or a prefix of
  the new document (after the open, the empty one), and after the last write the
  complete document.
\<close>

theorem direct_overwrite:
  assumes "main w = Inr (data, ops)"
  shows "ops = Open_w (output_file w) # map (Write (output_file w)) (json_dump w data)
                 @ [Close (output_file w)]
       \<and> observations fs (output_file w) ops ! 1 = Some []
       \<and> (\<forall>c \<in> set (observations fs (output_file w) ops).
             c = fs (output_file w) \<or> (\<exists>n. c = Some (take n (concat (json_dump w data)))))
       \<and> last (observations fs (output_file w) ops) = Some (concat (json_dump w data))"
proof -
  have ops: "ops = Open_w (output_file w) # map (Write (output_file w)) (json_dump w data)
                 @ [Close (output_file w)]"
    using assms by (auto simp: main_def publish_def split: sum.splits option.splits)
  show ?thesis
    using observations_publish [of fs "output_file w" "json_dump w data"] ops by simp
qed

theorem direct_overwrite_witness:
  "main quiet_world =
     Inr ([(''updated'', JStr ''3:45 pm''), (''pihole'', JObj []), (''server'', JObj []),
           (''containers'', JArr [synthetic_entry ''docker not found''])],
          [Open_w ''sysmon.json'', Write ''sysmon.json'' quiet_document, Close ''sysmon.json''])
   \<and> observations old_fs ''sysmon.json''
         [Open_w ''sysmon.json'', Write ''sysmon.json'' quiet_document, Close ''sysmon.json''] ! 1 = Some []
   \<and> last (observations old_fs ''sysmon.json''
         [Open_w ''sysmon.json'', Write ''sysmon.json'' quiet_document, Close ''sysmon.json'']) = Some quiet_document"
proof -
  have f: "output_file quiet_world = ''sysmon.json''"
    and j: "concat (json_dump quiet_world d) = quiet_document" for d
    by (simp_all add: quiet_world_def)
  show ?thesis
    using direct_overwrite [OF main_quiet, of old_fs] main_quiet
    unfolding f j by blast
qed

end
